theory Spec2Isabelle
  imports Complex_Main
begin

section \<open>Data model\<close>

text \<open>
  The program under verification is \<^verbatim>\<open>src/bindiff/bindiff.py\<close>: class \<^verbatim>\<open>BinDiff\<close>
  reads a diff store and annotates two program graphs (functions, basic blocks,
  instructions) with the matches the store declares.

  Modelled from the spec: the graph classes \<^verbatim>\<open>ProgramBinDiff\<close>, \<^verbatim>\<open>FunctionBinDiff\<close>,
  \<^verbatim>\<open>BasicBlockBinDiff\<close> and \<^verbatim>\<open>InstructionBinDiff\<close> (module \<^verbatim>\<open>bindiff.types\<close>, built on
  \<^verbatim>\<open>binexport\<close>) are not in the source tree. Following the data model of the spec,
  a program maps addresses to functions, a function maps addresses to basic blocks, a
  basic block maps addresses to instructions, each graph is a tree, and \<^verbatim>\<open>match\<close> is
  either absent (\<^verbatim>\<open>None\<close>) or a cross-reference into the other program. Every mapping
  is an association list in iteration order, read with \<open>map_of\<close>. An object is
  identified by the addresses that lead to it: a function by its address in its
  program, a block by function address and block address, an instruction by function,
  block and instruction address. A block's \<^verbatim>\<open>addr\<close> attribute is the address under which
  its function maps it. A \<^verbatim>\<open>match\<close> that is set counts as true in a condition, one that
  is \<^verbatim>\<open>None\<close> as false. An enumeration member is identified with its integer value; which
  integers are values of \<^verbatim>\<open>FunctionAlgorithm\<close> and \<^verbatim>\<open>BasicBlockAlgorithm\<close> is a parameter
  (a predicate on integers), and constructing a member from any other integer raises
  \<^verbatim>\<open>ValueError\<close>. Similarity and confidence are Python floats; the model takes them as
  rational numbers (every finite float is one).
\<close>

type_synonym addr = int

datatype error = KeyError | IndexError | AttributeError | ValueError | TypeError

datatype bref = BRef addr addr

datatype iref = IRef addr addr addr

datatype message = Conflict addr addr addr addr | AlreadyMatched

record instruction =
  i_match :: "iref option"

record basic_block =
  bb_match :: "bref option"
  bb_algorithm :: "int option"
  bb_insts :: "(addr \<times> instruction) list"

record func =
  f_similarity :: "rat option"
  f_confidence :: "rat option"
  f_algorithm :: "int option"
  f_match :: "addr option"
  f_blocks :: "(addr \<times> basic_block) list"

record program =
  p_similarity :: "rat option"
  p_confidence :: "rat option"
  p_funcs :: "(addr \<times> func) list"

text \<open>
  \<open>BRef g b\<close> is the block at address \<open>b\<close> of the function at address \<open>g\<close> of the other
  program, \<open>IRef g b i\<close> the instruction at \<open>i\<close> in that block. A function's \<^verbatim>\<open>match\<close> is
  the address of the matched function in the other program. \<open>message\<close> is what the
  two \<^verbatim>\<open>print\<close> calls of the block loader write.
\<close>

subsection \<open>Dictionary operations\<close>

text \<open>
  \<open>has_key\<close> is Python's \<^verbatim>\<open>k in d\<close>; \<open>upd k g\<close> changes, in place, the object stored under
  \<open>k\<close>; \<open>put\<close> is \<^verbatim>\<open>d[k] = v\<close> (a new key goes last, an old one keeps its place);
  \<open>truthy\<close> is the truth value of an attribute that is \<^verbatim>\<open>None\<close> or an object.
\<close>

definition has_key :: "('k \<times> 'v) list \<Rightarrow> 'k \<Rightarrow> bool" where
  "has_key xs k = (case map_of xs k of None \<Rightarrow> False | Some _ \<Rightarrow> True)"

fun upd :: "'k \<Rightarrow> ('v \<Rightarrow> 'v) \<Rightarrow> ('k \<times> 'v) list \<Rightarrow> ('k \<times> 'v) list" where
  "upd k g [] = []"
| "upd k g ((k', v) # xs) = (if k' = k then (k', g v) else (k', v)) # upd k g xs"

fun put :: "'k \<Rightarrow> 'v \<Rightarrow> ('k \<times> 'v) list \<Rightarrow> ('k \<times> 'v) list" where
  "put k v [] = [(k, v)]"
| "put k v ((k', v') # xs) = (if k' = k then (k, v) # xs else (k', v') # put k v xs)"

definition truthy :: "'a option \<Rightarrow> bool" where
  "truthy m = (case m of None \<Rightarrow> False | Some _ \<Rightarrow> True)"

section \<open>The basic-block loader\<close>

text \<open>
  \<^verbatim>\<open>_load_basic_block_info(self, f1, f2, bb_addr1, bb_addr2, algo, inst_data)\<close> mutates the
  two function objects it is given, the blocks and instructions below them, and the
  session's \<^verbatim>\<open>single_match\<close> list, and it prints. The model passes exactly that state:
  the two functions, the list and the printed output. \<open>a1\<close> and \<open>a2\<close> are the addresses
  of \<^verbatim>\<open>f1\<close> in the primary and of \<^verbatim>\<open>f2\<close> in the secondary program; they only serve to
  write references. An exception is a result \<open>Inl\<close>; the state a raising call leaves
  behind is not kept.
\<close>

record bb_state =
  st_f1 :: func
  st_f2 :: func
  st_single :: "(addr \<times> addr) list"
  st_out :: "message list"

text \<open>
  Lines 135 to 137:
  \<^verbatim>\<open>
  if bb1.match or bb2.match:
      if bb1.match != bb2 or bb2.match != bb1:
          print("Will make a basic block to match another one: (0x%x-0x%x) (0x%x-0x%x)"
                % (bb1.addr, bb1.match.addr, bb2.addr, bb2.match.addr))
  \<close>
  Reading \<^verbatim>\<open>.addr\<close> of a \<^verbatim>\<open>match\<close> that is \<^verbatim>\<open>None\<close> raises \<^verbatim>\<open>AttributeError\<close>.
\<close>

definition conflict_report ::
    "addr \<Rightarrow> addr \<Rightarrow> addr \<Rightarrow> addr \<Rightarrow> basic_block \<Rightarrow> basic_block \<Rightarrow> error + message list" where
  "conflict_report a1 a2 bb_addr1 bb_addr2 bb1 bb2 =
    (if truthy (bb_match bb1) \<or> truthy (bb_match bb2) then
       if bb_match bb1 \<noteq> Some (BRef a2 bb_addr2) \<or> bb_match bb2 \<noteq> Some (BRef a1 bb_addr1) then
         (case bb_match bb1 of
            None \<Rightarrow> Inl AttributeError
          | Some (BRef g1 m1) \<Rightarrow>
              (case bb_match bb2 of
                 None \<Rightarrow> Inl AttributeError
               | Some (BRef g2 m2) \<Rightarrow> Inr [Conflict bb_addr1 m1 bb_addr2 m2]))
       else Inr []
     else Inr [])"

definition set_block :: "addr \<Rightarrow> bref \<Rightarrow> int \<Rightarrow> func \<Rightarrow> func" where
  "set_block ba r algo f =
     f\<lparr>f_blocks := upd ba (\<lambda>b. b\<lparr>bb_match := Some r, bb_algorithm := Some algo\<rparr>) (f_blocks f)\<rparr>"

text \<open>
  Lines 134 to 139, the head of the outer loop:
  \<^verbatim>\<open>
  bb1, bb2 = f1[bb_addr1], f2[bb_addr2]
  (the conflict report above)
  bb1.match, bb2.match = bb2, bb1
  bb1.algorithm, bb2.algorithm = BasicBlockAlgorithm(algo), BasicBlockAlgorithm(algo)
  \<close>
\<close>

definition resolve ::
    "(int \<Rightarrow> bool) \<Rightarrow> addr \<Rightarrow> addr \<Rightarrow> bb_state \<Rightarrow> addr \<Rightarrow> addr \<Rightarrow> int \<Rightarrow> error + bb_state" where
  "resolve benum a1 a2 st bb_addr1 bb_addr2 algo =
    (case map_of (f_blocks (st_f1 st)) bb_addr1 of
       None \<Rightarrow> Inl KeyError
     | Some bb1 \<Rightarrow>
    (case map_of (f_blocks (st_f2 st)) bb_addr2 of
       None \<Rightarrow> Inl KeyError
     | Some bb2 \<Rightarrow>
    (case conflict_report a1 a2 bb_addr1 bb_addr2 bb1 bb2 of
       Inl e \<Rightarrow> Inl e
     | Inr msgs \<Rightarrow>
        if benum algo then
          Inr (st\<lparr>st_f1 := set_block bb_addr1 (BRef a2 bb_addr2) algo (st_f1 st),
                  st_f2 := set_block bb_addr2 (BRef a1 bb_addr1) algo (st_f2 st),
                  st_out := st_out st @ msgs\<rparr>)
        else Inl ValueError)))"

text \<open>
  \<^verbatim>\<open>_load_instruction_info(self, inst1, inst2)\<close>, line 165:
  \<^verbatim>\<open>inst1.match, inst2.match = inst2, inst1\<close>, for the instruction at \<open>i1\<close> of the block
  at \<open>ba1\<close> of \<^verbatim>\<open>f1\<close> and the instruction at \<open>i2\<close> of the block at \<open>ba2\<close> of \<^verbatim>\<open>f2\<close>.
\<close>

definition set_inst :: "addr \<Rightarrow> addr \<Rightarrow> iref \<Rightarrow> func \<Rightarrow> func" where
  "set_inst ba i r f =
     f\<lparr>f_blocks :=
         upd ba (\<lambda>b. b\<lparr>bb_insts := upd i (\<lambda>x. x\<lparr>i_match := Some r\<rparr>) (bb_insts b)\<rparr>) (f_blocks f)\<rparr>"

definition load_instruction_info ::
    "addr \<Rightarrow> addr \<Rightarrow> bb_state \<Rightarrow> addr \<Rightarrow> addr \<Rightarrow> addr \<Rightarrow> addr \<Rightarrow> bb_state" where
  "load_instruction_info a1 a2 st ba1 ba2 i1 i2 =
     st\<lparr>st_f1 := set_inst ba1 i1 (IRef a2 ba2 i2) (st_f1 st),
        st_f2 := set_inst ba2 i2 (IRef a1 ba1 i1) (st_f2 st)\<rparr>"

text \<open>
  Lines 147 and 148, the search for the block that owns an instruction address:
  \<^verbatim>\<open>bb_addr1 = i_addr1 if i_addr1 in f1 else [x.addr for x in f1.values() if i_addr1 in x][0]\<close>.
  Indexing the empty list raises \<^verbatim>\<open>IndexError\<close>.
\<close>

definition owning_block :: "func \<Rightarrow> addr \<Rightarrow> error + addr" where
  "owning_block f i =
    (if has_key (f_blocks f) i then Inr i
     else (case filter (\<lambda>(k, x). has_key (bb_insts x) i) (f_blocks f) of
             [] \<Rightarrow> Inl IndexError
           | (k, x) # _ \<Rightarrow> Inr k))"

text \<open>\<^verbatim>\<open>f[bb_addr].match\<close> as a condition (line 149).\<close>

definition block_matched :: "func \<Rightarrow> addr \<Rightarrow> error + bool" where
  "block_matched f ba =
    (case map_of (f_blocks f) ba of
       None \<Rightarrow> Inl KeyError
     | Some b \<Rightarrow> Inr (truthy (bb_match b)))"

text \<open>\<^verbatim>\<open>self.single_match.append(p)\<close> and \<^verbatim>\<open>print\<close>.\<close>

definition orphan :: "bb_state \<Rightarrow> addr \<times> addr \<Rightarrow> bb_state" where
  "orphan st p = st\<lparr>st_single := st_single st @ [p]\<rparr>"

definition say :: "bb_state \<Rightarrow> message \<Rightarrow> bb_state" where
  "say st m = st\<lparr>st_out := st_out st @ [m]\<rparr>"

text \<open>
  The two nested loops of lines 133 to 156. \<open>load_basic_block_info\<close> is the test of the
  outer \<^verbatim>\<open>while inst_data:\<close> followed by lines 134 to 139; \<open>drain\<close> is the inner
  \<^verbatim>\<open>while inst_data:\<close>, which pops the first pair. Every \<^verbatim>\<open>break\<close> goes back to the test
  of the outer loop, with the values \<^verbatim>\<open>bb_addr1\<close> and \<^verbatim>\<open>bb_addr2\<close> have at that moment:
  lines 147 and 148 assign them before line 149 decides between \<^verbatim>\<open>single_match\<close> and
  putting the pair back. In \<open>drain\<close>, \<^verbatim>\<open>bb1\<close> and \<^verbatim>\<open>bb2\<close> are the blocks the head of the
  loop fetched, read again from the state under the same addresses (the \<open>KeyError\<close>
  branches of these two reads cannot be reached from \<open>load_basic_block_info\<close>).
  The condition of line 149 is an \<^verbatim>\<open>or\<close>: its second operand is evaluated only when
  the first is false.
\<close>

function load_basic_block_info ::
    "(int \<Rightarrow> bool) \<Rightarrow> addr \<Rightarrow> addr \<Rightarrow> bb_state \<Rightarrow> addr \<Rightarrow> addr \<Rightarrow> int \<Rightarrow> (addr \<times> addr) list
      \<Rightarrow> error + bb_state"
  and drain ::
    "(int \<Rightarrow> bool) \<Rightarrow> addr \<Rightarrow> addr \<Rightarrow> bb_state \<Rightarrow> addr \<Rightarrow> addr \<Rightarrow> int \<Rightarrow> (addr \<times> addr) list
      \<Rightarrow> error + bb_state"
where
  "load_basic_block_info benum a1 a2 st bb_addr1 bb_addr2 algo [] = Inr st"
| "load_basic_block_info benum a1 a2 st bb_addr1 bb_addr2 algo (p # ps) =
     (case resolve benum a1 a2 st bb_addr1 bb_addr2 algo of
        Inl e \<Rightarrow> Inl e
      | Inr st' \<Rightarrow> drain benum a1 a2 st' bb_addr1 bb_addr2 algo (p # ps))"
| "drain benum a1 a2 st bb_addr1 bb_addr2 algo [] = Inr st"
| "drain benum a1 a2 st bb_addr1 bb_addr2 algo ((i_addr1, i_addr2) # rest) =
     (case map_of (f_blocks (st_f1 st)) bb_addr1 of
        None \<Rightarrow> Inl KeyError
      | Some bb1 \<Rightarrow>
     (case map_of (f_blocks (st_f2 st)) bb_addr2 of
        None \<Rightarrow> Inl KeyError
      | Some bb2 \<Rightarrow>
        if has_key (bb_insts bb1) i_addr1 \<and> has_key (bb_insts bb2) i_addr2 then
          drain benum a1 a2 (load_instruction_info a1 a2 st bb_addr1 bb_addr2 i_addr1 i_addr2)
            bb_addr1 bb_addr2 algo rest
        else if \<not> has_key (bb_insts bb1) i_addr1 \<and> \<not> has_key (bb_insts bb2) i_addr2 then
          (case owning_block (st_f1 st) i_addr1 of
             Inl e \<Rightarrow> Inl e
           | Inr nb1 \<Rightarrow>
          (case owning_block (st_f2 st) i_addr2 of
             Inl e \<Rightarrow> Inl e
           | Inr nb2 \<Rightarrow>
          (case block_matched (st_f1 st) nb1 of
             Inl e \<Rightarrow> Inl e
           | Inr m1 \<Rightarrow>
               if m1 then
                 load_basic_block_info benum a1 a2
                   (orphan (say st AlreadyMatched) (i_addr1, i_addr2)) nb1 nb2 algo rest
               else
                 (case block_matched (st_f2 st) nb2 of
                    Inl e \<Rightarrow> Inl e
                  | Inr m2 \<Rightarrow>
                      if m2 then
                        load_basic_block_info benum a1 a2
                          (orphan (say st AlreadyMatched) (i_addr1, i_addr2)) nb1 nb2 algo rest
                      else
                        load_basic_block_info benum a1 a2 st nb1 nb2 algo
                          ((i_addr1, i_addr2) # rest)))))
        else
          load_basic_block_info benum a1 a2 (orphan st (i_addr1, i_addr2))
            bb_addr1 bb_addr2 algo rest))"
  by pat_completeness auto

text \<open>
  Termination: putting a pair back leaves the queue as long as it was, but it happens
  only when the block found in \<^verbatim>\<open>f1\<close> has no match, and the head of the loop then gives
  it one. So the number of blocks of \<^verbatim>\<open>f1\<close> without a match, taken after the head of
  the loop has run, decreases; everywhere else it does not grow and the queue shrinks.
\<close>

definition unmatched :: "func \<Rightarrow> nat" where
  "unmatched f = length (filter (\<lambda>(k, b). \<not> truthy (bb_match b)) (f_blocks f))"

definition loop_measure ::
  "(int \<Rightarrow> bool) \<times> addr \<times> addr \<times> bb_state \<times> addr \<times> addr \<times> int \<times> (addr \<times> addr) list
    + (int \<Rightarrow> bool) \<times> addr \<times> addr \<times> bb_state \<times> addr \<times> addr \<times> int \<times> (addr \<times> addr) list
   \<Rightarrow> nat \<times> nat" where
  "loop_measure x =
    (case x of
       Inl (benum, a1, a2, st, b1, b2, algo, q) \<Rightarrow>
         ((case resolve benum a1 a2 st b1 b2 algo of
             Inl e \<Rightarrow> 0
           | Inr st' \<Rightarrow> unmatched (st_f1 st')),
          2 * length q + 1)
     | Inr (benum, a1, a2, st, b1, b2, algo, q) \<Rightarrow> (unmatched (st_f1 st), 2 * length q))"

section \<open>The function loader and the constructor\<close>

text \<open>
  The constructor groups the rows of the store (lines 53 to 61) into one record per
  function, each with its basic-block groups in the order met; \<open>bb_data\<close> is the list
  \<^verbatim>\<open>[bb_addr1, bb_addr2, bb_algo, [(i1, i2), ...]]\<close> and \<open>f_data\<close> the list
  \<^verbatim>\<open>[address1, address2, similarity, confidence, algorithm, {bb_id: bb_data}]\<close>.
\<close>

record bb_data =
  d_bb_addr1 :: addr
  d_bb_addr2 :: addr
  d_bb_algo :: int
  d_inst_data :: "(addr \<times> addr) list"

record f_data =
  d_addr1 :: addr
  d_addr2 :: addr
  d_similarity :: rat
  d_confidence :: rat
  d_algo :: int
  d_bbs :: "(int \<times> bb_data) list"

type_synonym datetime = "nat \<times> nat \<times> nat \<times> nat \<times> nat \<times> nat"

text \<open>
  The attributes of a \<^verbatim>\<open>BinDiff\<close> object (lines 35 to 44), and what it has printed.
  \<^verbatim>\<open>version\<close> is never assigned anything but \<^verbatim>\<open>None\<close> and is left out.
\<close>

record session =
  primary :: program
  secondary :: program
  similarity :: "rat option"
  confidence :: "rat option"
  created :: "datetime option"
  modified :: "datetime option"
  single_match :: "(addr \<times> addr) list"
  printed :: "message list"

text \<open>
  \<^verbatim>\<open>for bb_data in bbs_data.values(): self._load_basic_block_info(f1, f2, *bb_data)\<close>
  (lines 113 and 114). The first exception ends the loop.
\<close>

fun load_groups ::
    "(int \<Rightarrow> bool) \<Rightarrow> addr \<Rightarrow> addr \<Rightarrow> bb_state \<Rightarrow> bb_data list \<Rightarrow> error + bb_state" where
  "load_groups benum a1 a2 st [] = Inr st"
| "load_groups benum a1 a2 st (g # gs) =
     (case load_basic_block_info benum a1 a2 st
             (d_bb_addr1 g) (d_bb_addr2 g) (d_bb_algo g) (d_inst_data g) of
        Inl e \<Rightarrow> Inl e
      | Inr st' \<Rightarrow> load_groups benum a1 a2 st' gs)"

text \<open>Lines 108 to 111: the annotations of one function of a matched pair.\<close>

definition annotate :: "rat \<Rightarrow> rat \<Rightarrow> int \<Rightarrow> addr \<Rightarrow> func \<Rightarrow> func" where
  "annotate sim conf algo m f =
     f\<lparr>f_similarity := Some sim, f_confidence := Some conf,
       f_algorithm := Some algo, f_match := Some m\<rparr>"

text \<open>
  \<^verbatim>\<open>_load_function_info(self, addr1, addr2, similarity, confidence, algo, bbs_data)\<close>,
  lines 106 to 114:
  \<^verbatim>\<open>
  f1 = self.primary[addr1]
  f2 = self.secondary[addr2]
  f1.similarity, f2.similarity = similarity, similarity
  f1.confidence, f2.confidence = confidence, confidence
  f1.algorithm, f2.algorithm = FunctionAlgorithm(algo), FunctionAlgorithm(algo)
  f1.match, f2.match = f2, f1
  \<close>
  followed by the loop over the groups. The two functions are handed to the block
  loader and stored back under their addresses afterwards.
\<close>

definition load_function_info ::
    "(int \<Rightarrow> bool) \<Rightarrow> (int \<Rightarrow> bool) \<Rightarrow> session \<Rightarrow> f_data \<Rightarrow> error + session" where
  "load_function_info fenum benum s d =
    (case map_of (p_funcs (primary s)) (d_addr1 d) of
       None \<Rightarrow> Inl KeyError
     | Some f1 \<Rightarrow>
    (case map_of (p_funcs (secondary s)) (d_addr2 d) of
       None \<Rightarrow> Inl KeyError
     | Some f2 \<Rightarrow>
        if fenum (d_algo d) then
          (case load_groups benum (d_addr1 d) (d_addr2 d)
                  \<lparr>st_f1 = annotate (d_similarity d) (d_confidence d) (d_algo d) (d_addr2 d) f1,
                   st_f2 = annotate (d_similarity d) (d_confidence d) (d_algo d) (d_addr1 d) f2,
                   st_single = single_match s, st_out = printed s\<rparr>
                  (map snd (d_bbs d)) of
             Inl e \<Rightarrow> Inl e
           | Inr st \<Rightarrow>
               Inr (s\<lparr>primary := (primary s)\<lparr>p_funcs :=
                                     upd (d_addr1 d) (\<lambda>_. st_f1 st) (p_funcs (primary s))\<rparr>,
                       secondary := (secondary s)\<lparr>p_funcs :=
                                     upd (d_addr2 d) (\<lambda>_. st_f2 st) (p_funcs (secondary s))\<rparr>,
                       single_match := st_single st,
                       printed := st_out st\<rparr>))
        else Inl ValueError))"

text \<open>
  The loop of lines 63 and 64: \<^verbatim>\<open>_load_function_info\<close> is called on every value of
  \<^verbatim>\<open>funs\<close>, in the order of the dict. Nothing catches an exception here, so the first
  one ends the constructor.
\<close>

fun load_all :: "(int \<Rightarrow> bool) \<Rightarrow> (int \<Rightarrow> bool) \<Rightarrow> session \<Rightarrow> f_data list \<Rightarrow> error + session" where
  "load_all fenum benum s [] = Inr s"
| "load_all fenum benum s (d # ds) =
     (case load_function_info fenum benum s d of
        Inl e \<Rightarrow> Inl e
      | Inr s' \<Rightarrow> load_all fenum benum s' ds)"

subsection \<open>Reading the store\<close>

text \<open>
  Line 54, \<^verbatim>\<open>funs = {x[0]: list(x[1:])+[{}] for x in conn.execute(fun_query)}\<close>, and the
  loop of lines 57 to 61 over the joined rows
  \<^verbatim>\<open>(f_id, bb_id, bb_addr1, bb_addr2, bb_algo, i1, i2)\<close>:
  \<^verbatim>\<open>
  if bb_id in funs[f_id][5]:
      funs[f_id][5][bb_id][3].append((i1, i2))
  else:
      funs[f_id][5][bb_id] = [bb_addr1, bb_addr2, bb_algo, [(i1, i2)]]
  \<close>
  The query results are the inputs of the model.
\<close>

type_synonym function_row = "int \<times> addr \<times> addr \<times> rat \<times> rat \<times> int"

type_synonym instruction_row = "int \<times> int \<times> addr \<times> addr \<times> int \<times> addr \<times> addr"

definition function_dict :: "function_row list \<Rightarrow> (int \<times> f_data) list" where
  "function_dict rows =
     foldl (\<lambda>funs (f_id, a1, a2, sim, conf, algo).
              put f_id \<lparr>d_addr1 = a1, d_addr2 = a2, d_similarity = sim, d_confidence = conf,
                        d_algo = algo, d_bbs = []\<rparr> funs) [] rows"

definition add_row :: "(int \<times> f_data) list \<Rightarrow> instruction_row \<Rightarrow> error + (int \<times> f_data) list" where
  "add_row funs r =
    (case r of (f_id, bb_id, bb_addr1, bb_addr2, bb_algo, i1, i2) \<Rightarrow>
      (case map_of funs f_id of
         None \<Rightarrow> Inl KeyError
       | Some d \<Rightarrow>
           if has_key (d_bbs d) bb_id then
             Inr (upd f_id
                   (\<lambda>d. d\<lparr>d_bbs :=
                      upd bb_id (\<lambda>g. g\<lparr>d_inst_data := d_inst_data g @ [(i1, i2)]\<rparr>) (d_bbs d)\<rparr>)
                   funs)
           else
             Inr (upd f_id
                   (\<lambda>d. d\<lparr>d_bbs :=
                      put bb_id \<lparr>d_bb_addr1 = bb_addr1, d_bb_addr2 = bb_addr2,
                                 d_bb_algo = bb_algo, d_inst_data = [(i1, i2)]\<rparr> (d_bbs d)\<rparr>)
                   funs)))"

fun add_rows :: "(int \<times> f_data) list \<Rightarrow> instruction_row list \<Rightarrow> error + (int \<times> f_data) list" where
  "add_rows funs [] = Inr funs"
| "add_rows funs (r # rs) =
     (case add_row funs r of
        Inl e \<Rightarrow> Inl e
      | Inr funs' \<Rightarrow> add_rows funs' rs)"

subsection \<open>Metadata\<close>

text \<open>
  \<^verbatim>\<open>_load_metadata\<close>, lines 87 to 92. \<^verbatim>\<open>fetchone()\<close> gives \<^verbatim>\<open>None\<close> when the table is empty,
  and unpacking \<^verbatim>\<open>None\<close> raises \<^verbatim>\<open>TypeError\<close>. \<^verbatim>\<open>datetime.strptime\<close> is a parameter: it
  gives the parsed time or fails with \<^verbatim>\<open>ValueError\<close>. Lines 91 and 92 are
  \<^verbatim>\<open>float("{0:.3f}".format(x))\<close>: the format prints the decimal number with three
  digits after the point that is nearest to \<open>x\<close>, a tie going to the even last digit.
  \<open>format3\<close> is that decimal number. \<^verbatim>\<open>float\<close> then reads it back as the nearest binary
  float, a step the model leaves out: its values are the decimals themselves.
\<close>

definition round_half_even :: "rat \<Rightarrow> int" where
  "round_half_even x =
     (let n = \<lfloor>x\<rfloor>; d = x - of_int n
      in if d < 1 / 2 then n
         else if 1 / 2 < d then n + 1
         else if even n then n else n + 1)"

definition format3 :: "rat \<Rightarrow> rat" where
  "format3 x = of_int (round_half_even (x * 1000)) / 1000"

type_synonym metadata_row = "string \<times> string \<times> rat \<times> rat"

definition load_metadata ::
    "(string \<Rightarrow> datetime option) \<Rightarrow> session \<Rightarrow> metadata_row option \<Rightarrow> error + session" where
  "load_metadata strptime s row =
    (case row of
       None \<Rightarrow> Inl TypeError
     | Some (c, m, sim, conf) \<Rightarrow>
        (case strptime c of
           None \<Rightarrow> Inl ValueError
         | Some c' \<Rightarrow>
            (case strptime m of
               None \<Rightarrow> Inl ValueError
             | Some m' \<Rightarrow>
                 Inr (s\<lparr>created := Some c', modified := Some m',
                         similarity := Some (format3 sim),
                         confidence := Some (format3 conf)\<rparr>))))"

text \<open>
  Lines 49 and 50:
  \<^verbatim>\<open>self.primary.similarity, self.secondary.similarity = self.similarity, self.similarity\<close>
  and the same for \<^verbatim>\<open>confidence\<close>.
\<close>

definition apply_metadata :: "session \<Rightarrow> session" where
  "apply_metadata s =
     s\<lparr>primary := (primary s)\<lparr>p_similarity := similarity s, p_confidence := confidence s\<rparr>,
       secondary := (secondary s)\<lparr>p_similarity := similarity s, p_confidence := confidence s\<rparr>\<rparr>"

text \<open>
  \<^verbatim>\<open>BinDiff.__init__\<close>, lines 35 to 65, for two programs that are already loaded. Opening
  the store and running the three queries is outside the model; their results are
  arguments. \<^verbatim>\<open>_convert_program_classes\<close> only changes the class of each object and has
  no counterpart here.
\<close>

definition init ::
    "(string \<Rightarrow> datetime option) \<Rightarrow> (int \<Rightarrow> bool) \<Rightarrow> (int \<Rightarrow> bool) \<Rightarrow> program \<Rightarrow> program
      \<Rightarrow> metadata_row option \<Rightarrow> function_row list \<Rightarrow> instruction_row list \<Rightarrow> error + session" where
  "init strptime fenum benum p1 p2 meta fun_rows rows =
    (case load_metadata strptime
            \<lparr>primary = p1, secondary = p2, similarity = None, confidence = None,
             created = None, modified = None, single_match = [], printed = []\<rparr> meta of
       Inl e \<Rightarrow> Inl e
     | Inr s \<Rightarrow>
        (case add_rows (function_dict fun_rows) rows of
           Inl e \<Rightarrow> Inl e
         | Inr funs \<Rightarrow> load_all fenum benum (apply_metadata s) (map snd funs)))"

section \<open>Running the differ\<close>

text \<open>
  \<^verbatim>\<open>_start_diffing(p1_path, p2_path, out_diff)\<close>, lines 177 to 205. The differ is an
  external process: its exit code and the names of the files it leaves in the fresh
  temporary directory, in the order \<^verbatim>\<open>iterdir\<close> lists them, are arguments. \<open>p1_name\<close> and
  \<open>p2_name\<close> are the last components of the two input paths. The result is the value
  returned and what the call leaves behind: the temporary directory (\<open>None\<close> once
  \<^verbatim>\<open>shutil.rmtree\<close> has removed it, otherwise its entries as the differ left them), the
  file moved to \<^verbatim>\<open>out_diff\<close> if any, and the log. \<open>suffix_of\<close> and \<open>stem_of\<close> are
  \<^verbatim>\<open>PurePath.suffix\<close> and \<^verbatim>\<open>PurePath.stem\<close> of the standard library on a file name: with
  \<open>i\<close> the index of the last dot, the name is split there when \<open>0 < i < len(name) - 1\<close>.
\<close>

datatype log_line = DifferError int | MultipleFiles | NotFound

record diffing =
  fs_tmp_dir :: "string list option"
  fs_out_diff :: "string option"
  fs_log :: "log_line list"

definition rfind :: "char \<Rightarrow> string \<Rightarrow> nat option" where
  "rfind c s =
     (if c \<in> set s then Some (length s - 1 - length (takeWhile (\<lambda>x. x \<noteq> c) (rev s)))
      else None)"

definition suffix_of :: "string \<Rightarrow> string" where
  "suffix_of name =
     (case rfind CHR ''.'' name of
        None \<Rightarrow> []
      | Some i \<Rightarrow> if 0 < i \<and> i + 1 < length name then drop i name else [])"

definition stem_of :: "string \<Rightarrow> string" where
  "stem_of name =
     (case rfind CHR ''.'' name of
        None \<Rightarrow> name
      | Some i \<Rightarrow> if 0 < i \<and> i + 1 < length name then take i name else name)"

definition start_diffing :: "int \<Rightarrow> string list \<Rightarrow> string \<Rightarrow> string \<Rightarrow> int \<times> diffing" where
  "start_diffing retcode produced p1_name p2_name =
    (if retcode \<noteq> 0 then
       (retcode, \<lparr>fs_tmp_dir = Some produced, fs_out_diff = None, fs_log = [DifferError retcode]\<rparr>)
     else
       (let out_file = stem_of p1_name @ ''_vs_'' @ stem_of p2_name @ ''.BinDiff'' in
        if out_file \<in> set produced then
          (0, \<lparr>fs_tmp_dir = None, fs_out_diff = Some out_file, fs_log = []\<rparr>)
        else
          (let candidates = produced;
               warning = (if 1 < length candidates then [MultipleFiles] else [])
           in case filter (\<lambda>file. suffix_of file = ''.BinExport'') candidates of
                [] \<Rightarrow>
                  (- 2, \<lparr>fs_tmp_dir = Some produced, fs_out_diff = None,
                         fs_log = warning @ [NotFound]\<rparr>)
              | file # _ \<Rightarrow>
                  (0, \<lparr>fs_tmp_dir = None, fs_out_diff = Some file, fs_log = warning\<rparr>))))"

section \<open>Reading the annotations\<close>

text \<open>
  What a caller sees of a block or an instruction of a function: the match and the
  algorithm of the block at an address, the match of an instruction of that block,
  and whether the block holds an instruction address. All are \<open>None\<close> or \<open>False\<close> where
  the function has no such block. \<open>program_block_match\<close> reads a block's match in a
  whole program.
\<close>

definition block_match_of :: "func \<Rightarrow> addr \<Rightarrow> bref option" where
  "block_match_of f b = (case map_of (f_blocks f) b of None \<Rightarrow> None | Some x \<Rightarrow> bb_match x)"

definition block_algorithm_of :: "func \<Rightarrow> addr \<Rightarrow> int option" where
  "block_algorithm_of f b =
     (case map_of (f_blocks f) b of None \<Rightarrow> None | Some x \<Rightarrow> bb_algorithm x)"

definition inst_match_of :: "func \<Rightarrow> addr \<Rightarrow> addr \<Rightarrow> iref option" where
  "inst_match_of f b i =
     (case map_of (f_blocks f) b of
        None \<Rightarrow> None
      | Some x \<Rightarrow> (case map_of (bb_insts x) i of None \<Rightarrow> None | Some y \<Rightarrow> i_match y))"

definition block_has :: "func \<Rightarrow> addr \<Rightarrow> addr \<Rightarrow> bool" where
  "block_has f b i =
     (case map_of (f_blocks f) b of None \<Rightarrow> False | Some x \<Rightarrow> has_key (bb_insts x) i)"

definition program_block_match :: "program \<Rightarrow> addr \<Rightarrow> addr \<Rightarrow> bref option" where
  "program_block_match p g b =
     (case map_of (p_funcs p) g of None \<Rightarrow> None | Some f \<Rightarrow> block_match_of f b)"

text \<open>
  Two relations between a function before and after a step: the function-level
  attributes and the block addresses are the same; every block that had a match
  still has one.
\<close>

definition same_function :: "func \<Rightarrow> func \<Rightarrow> bool" where
  "same_function f g =
     (f_similarity g = f_similarity f \<and> f_confidence g = f_confidence f \<and>
      f_algorithm g = f_algorithm f \<and> f_match g = f_match f \<and>
      map fst (f_blocks g) = map fst (f_blocks f))"

definition matches_kept :: "func \<Rightarrow> func \<Rightarrow> bool" where
  "matches_kept f g = (\<forall>b. block_match_of f b \<noteq> None \<longrightarrow> block_match_of g b \<noteq> None)"

text \<open>
  The annotations a function record \<open>d\<close> stands for: both functions exist, each has
  the other as its match, and both carry the record's similarity, confidence and
  algorithm.
\<close>

definition annotated :: "session \<Rightarrow> f_data \<Rightarrow> bool" where
  "annotated s d =
     (case map_of (p_funcs (primary s)) (d_addr1 d) of
        None \<Rightarrow> False
      | Some f1 \<Rightarrow>
         (case map_of (p_funcs (secondary s)) (d_addr2 d) of
            None \<Rightarrow> False
          | Some f2 \<Rightarrow>
              f_match f1 = Some (d_addr2 d) \<and> f_match f2 = Some (d_addr1 d) \<and>
              f_similarity f1 = Some (d_similarity d) \<and> f_similarity f2 = Some (d_similarity d) \<and>
              f_confidence f1 = Some (d_confidence d) \<and> f_confidence f2 = Some (d_confidence d) \<and>
              f_algorithm f1 = Some (d_algo d) \<and> f_algorithm f2 = Some (d_algo d)))"

text \<open>
  The inner loop on a queue whose pairs all sit in the two current blocks: one call of
  \<open>load_instruction_info\<close> per pair, in order.
\<close>

definition direct_pairs ::
    "addr \<Rightarrow> addr \<Rightarrow> addr \<Rightarrow> addr \<Rightarrow> bb_state \<Rightarrow> (addr \<times> addr) list \<Rightarrow> bb_state" where
  "direct_pairs a1 a2 ba1 ba2 st q =
     foldl (\<lambda>s p. load_instruction_info a1 a2 s ba1 ba2 (fst p) (snd p)) st q"

text \<open>
  The grouped rows of the store are well formed when every basic-block group has at
  least one instruction pair.
\<close>

definition groups_nonempty :: "(int \<times> f_data) list \<Rightarrow> bool" where
  "groups_nonempty funs =
     (\<forall>k d j g. (k, d) \<in> set funs \<and> (j, g) \<in> set (d_bbs d) \<longrightarrow> d_inst_data g \<noteq> [])"

text \<open>
  A function graph is well formed when its block addresses are distinct, as the keys
  of a dict are, and every block holds the instruction at its own address: the address
  of a block is the address of its first instruction. Line 147 relies on the second
  part when it takes an instruction address that is a block address for the address
  of the owning block.
\<close>

definition well_formed :: "func \<Rightarrow> bool" where
  "well_formed f =
     (distinct (map fst (f_blocks f)) \<and>
      list_all (\<lambda>(k, x). has_key (bb_insts x) k) (f_blocks f))"

section \<open>Example inputs\<close>

text \<open>
  Program graphs as the exporter builds them, before any diff is applied: no match,
  no algorithm, no similarity. A function is given by its blocks, a block by the
  addresses of its instructions.
\<close>

definition fresh_block :: "addr list \<Rightarrow> basic_block" where
  "fresh_block is =
     \<lparr>bb_match = None, bb_algorithm = None, bb_insts = map (\<lambda>i. (i, \<lparr>i_match = None\<rparr>)) is\<rparr>"

definition fresh_func :: "(addr \<times> addr list) list \<Rightarrow> func" where
  "fresh_func bs =
     \<lparr>f_similarity = None, f_confidence = None, f_algorithm = None, f_match = None,
      f_blocks = map (\<lambda>(a, is). (a, fresh_block is)) bs\<rparr>"

definition fresh_program :: "(addr \<times> (addr \<times> addr list) list) list \<Rightarrow> program" where
  "fresh_program fs =
     \<lparr>p_similarity = None, p_confidence = None,
      p_funcs = map (\<lambda>(a, bs). (a, fresh_func bs)) fs\<rparr>"

text \<open>
  The primary program has function 100 with blocks 10 (instructions 10 and 14) and 18,
  and function 110 with block 50. The secondary program has function 200 with blocks
  20, 30 and 40, and function 210 with block 60. The enumerations have the values 1
  to 19; the one timestamp that parses is the one below.
\<close>

definition ex_primary :: program where
  "ex_primary = fresh_program [(100, [(10, [10, 14]), (18, [18])]), (110, [(50, [50])])]"

definition ex_secondary :: program where
  "ex_secondary =
     fresh_program [(200, [(20, [20]), (30, [30]), (40, [40])]), (210, [(60, [60])])]"

definition ex_enum :: "int \<Rightarrow> bool" where
  "ex_enum a = (1 \<le> a \<and> a \<le> 19)"

definition ex_strptime :: "string \<Rightarrow> datetime option" where
  "ex_strptime s = (if s = ''2020-01-02 03:04:05'' then Some (2020, 1, 2, 3, 4, 5) else None)"

definition ex_session :: session where
  "ex_session =
     \<lparr>primary = ex_primary, secondary = ex_secondary, similarity = None, confidence = None,
      created = None, modified = None, single_match = [], printed = []\<rparr>"

text \<open>
  States of the block loader for the function pair (100, 200): \<open>ex_st\<close> before any
  group, \<open>ex_matched\<close> after the group that declares blocks 10 and 20 with the pair
  (10, 20), \<open>ex_conflict\<close> after a second group that declares blocks 18 and 30 with
  the pair (18, 30).
\<close>

definition ex_st :: bb_state where
  "ex_st =
     \<lparr>st_f1 = fresh_func [(10, [10, 14]), (18, [18])],
      st_f2 = fresh_func [(20, [20]), (30, [30]), (40, [40])],
      st_single = [], st_out = []\<rparr>"

definition ex_matched :: bb_state where
  "ex_matched =
     \<lparr>st_f1 = \<lparr>f_similarity = None, f_confidence = None, f_algorithm = None, f_match = None,
               f_blocks =
                 [(10, \<lparr>bb_match = Some (BRef 200 20), bb_algorithm = Some 1,
                        bb_insts = [(10, \<lparr>i_match = Some (IRef 200 20 20)\<rparr>),
                                    (14, \<lparr>i_match = None\<rparr>)]\<rparr>),
                  (18, fresh_block [18])]\<rparr>,
      st_f2 = \<lparr>f_similarity = None, f_confidence = None, f_algorithm = None, f_match = None,
               f_blocks =
                 [(20, \<lparr>bb_match = Some (BRef 100 10), bb_algorithm = Some 1,
                        bb_insts = [(20, \<lparr>i_match = Some (IRef 100 10 10)\<rparr>)]\<rparr>),
                  (30, fresh_block [30]),
                  (40, fresh_block [40])]\<rparr>,
      st_single = [], st_out = []\<rparr>"

definition ex_conflict :: bb_state where
  "ex_conflict =
     \<lparr>st_f1 = \<lparr>f_similarity = None, f_confidence = None, f_algorithm = None, f_match = None,
               f_blocks =
                 [(10, \<lparr>bb_match = Some (BRef 200 20), bb_algorithm = Some 1,
                        bb_insts = [(10, \<lparr>i_match = Some (IRef 200 20 20)\<rparr>),
                                    (14, \<lparr>i_match = None\<rparr>)]\<rparr>),
                  (18, \<lparr>bb_match = Some (BRef 200 30), bb_algorithm = Some 1,
                        bb_insts = [(18, \<lparr>i_match = Some (IRef 200 30 30)\<rparr>)]\<rparr>)]\<rparr>,
      st_f2 = \<lparr>f_similarity = None, f_confidence = None, f_algorithm = None, f_match = None,
               f_blocks =
                 [(20, \<lparr>bb_match = Some (BRef 100 10), bb_algorithm = Some 1,
                        bb_insts = [(20, \<lparr>i_match = Some (IRef 100 10 10)\<rparr>)]\<rparr>),
                  (30, \<lparr>bb_match = Some (BRef 100 18), bb_algorithm = Some 1,
                        bb_insts = [(30, \<lparr>i_match = Some (IRef 100 18 18)\<rparr>)]\<rparr>),
                  (40, fresh_block [40])]\<rparr>,
      st_single = [], st_out = []\<rparr>"

text \<open>
  A state of the block loader for two functions whose second blocks have an
  instruction after the first one: the primary function has blocks 10 and 18
  (instructions 18 and 22), the secondary function has blocks 20 and 30 (instructions
  30 and 34), and the group that declares blocks 10 and 20 with the pair (10, 20) has
  been loaded. The addresses 22 and 34 are no block addresses.
\<close>

definition ex_inner :: bb_state where
  "ex_inner =
     \<lparr>st_f1 = \<lparr>f_similarity = None, f_confidence = None, f_algorithm = None, f_match = None,
               f_blocks =
                 [(10, \<lparr>bb_match = Some (BRef 200 20), bb_algorithm = Some 1,
                        bb_insts = [(10, \<lparr>i_match = Some (IRef 200 20 20)\<rparr>)]\<rparr>),
                  (18, fresh_block [18, 22])]\<rparr>,
      st_f2 = \<lparr>f_similarity = None, f_confidence = None, f_algorithm = None, f_match = None,
               f_blocks =
                 [(20, \<lparr>bb_match = Some (BRef 100 10), bb_algorithm = Some 1,
                        bb_insts = [(20, \<lparr>i_match = Some (IRef 100 10 10)\<rparr>)]\<rparr>),
                  (30, fresh_block [30, 34])]\<rparr>,
      st_single = [], st_out = []\<rparr>"

text \<open>
  Two function records: (100, 200) with one group that declares blocks 10 and 20, and
  (110, 210) with one group that declares blocks 50 and 60.
\<close>

definition ex_record1 :: f_data where
  "ex_record1 =
     \<lparr>d_addr1 = 100, d_addr2 = 200, d_similarity = 19 / 20, d_confidence = 9 / 10, d_algo = 1,
      d_bbs = [(1, \<lparr>d_bb_addr1 = 10, d_bb_addr2 = 20, d_bb_algo = 2,
                    d_inst_data = [(10, 20)]\<rparr>)]\<rparr>"

definition ex_record2 :: f_data where
  "ex_record2 =
     \<lparr>d_addr1 = 110, d_addr2 = 210, d_similarity = 1 / 2, d_confidence = 1 / 4, d_algo = 3,
      d_bbs = [(2, \<lparr>d_bb_addr1 = 50, d_bb_addr2 = 60, d_bb_algo = 2,
                    d_inst_data = [(50, 60)]\<rparr>)]\<rparr>"

section \<open>Termination of the block loader\<close>

lemma map_fst_upd [simp]: "map fst (upd k g xs) = map fst xs"
  by (induction xs) auto

lemma map_of_upd:
  "map_of (upd k g xs) k' = (if k' = k then map_option g (map_of xs k) else map_of xs k')"
  by (induction xs) auto

lemma has_key_upd [simp]: "has_key (upd k g xs) k' = has_key xs k'"
  by (auto simp: has_key_def map_of_upd split: option.splits)

lemma filter_upd_le:
  assumes "\<And>v. P (g v) \<Longrightarrow> P v"
  shows "length (filter (\<lambda>(k, v). P v) (upd k g xs)) \<le> length (filter (\<lambda>(k, v). P v) xs)"
  using assms by (induction xs) auto

lemma filter_upd_eq:
  assumes "\<And>v. P (g v) = P v"
  shows "length (filter (\<lambda>(k, v). P v) (upd k g xs)) = length (filter (\<lambda>(k, v). P v) xs)"
proof (induction xs)
  case Nil
  show ?case by simp
next
  case (Cons x xs)
  obtain k' v' where x: "x = (k', v')" by (cases x)
  show ?case using Cons assms[of v'] x by (cases "k' = k") simp_all
qed

lemma filter_upd_less:
  assumes "\<And>v. \<not> P (g v)" and "map_of xs k = Some v" and "P v"
  shows "length (filter (\<lambda>(k, v). P v) (upd k g xs)) < length (filter (\<lambda>(k, v). P v) xs)"
  using assms
proof (induction xs)
  case Nil
  then show ?case by simp
next
  case (Cons x xs)
  obtain k' v' where x: "x = (k', v')" by (cases x)
  show ?case
  proof (cases "k' = k")
    case True
    with Cons.prems x have "v' = v" by simp
    moreover have "length (filter (\<lambda>(k, v). P v) (upd k g xs)) \<le> length (filter (\<lambda>(k, v). P v) xs)"
    proof (rule filter_upd_le)
      fix w assume "P (g w)" with Cons.prems(1) show "P w" by simp
    qed
    ultimately show ?thesis using Cons.prems x True by simp
  next
    case False
    with Cons x have "length (filter (\<lambda>(k, v). P v) (upd k g xs)) < length (filter (\<lambda>(k, v). P v) xs)"
      by simp
    then show ?thesis using x False by simp
  qed
qed

lemma unmatched_set_inst [simp]: "unmatched (set_inst ba i r f) = unmatched f"
  unfolding unmatched_def set_inst_def
  by (simp, rule filter_upd_eq) simp

lemma unmatched_set_block_le: "unmatched (set_block ba r algo f) \<le> unmatched f"
  unfolding unmatched_def set_block_def
  by (simp, rule filter_upd_le) (simp add: truthy_def)

lemma unmatched_set_block_less:
  assumes "map_of (f_blocks f) ba = Some b" and "\<not> truthy (bb_match b)"
  shows "unmatched (set_block ba r algo f) < unmatched f"
  unfolding unmatched_def set_block_def
  using assms by (simp, intro filter_upd_less[where v = b]) (simp_all add: truthy_def)

lemma unmatched_pos:
  assumes "map_of (f_blocks f) ba = Some b" and "\<not> truthy (bb_match b)"
  shows "0 < unmatched f"
proof -
  from assms(1) have "(ba, b) \<in> set (f_blocks f)" by (rule map_of_SomeD)
  with assms(2) have "(ba, b) \<in> set (filter (\<lambda>(k, b). \<not> truthy (bb_match b)) (f_blocks f))"
    by simp
  then show ?thesis unfolding unmatched_def by (metis length_pos_if_in_set)
qed

lemma resolve_unmatched_le:
  "resolve benum a1 a2 st b1 b2 algo = Inr st' \<Longrightarrow> unmatched (st_f1 st') \<le> unmatched (st_f1 st)"
  by (auto simp: resolve_def unmatched_set_block_le split: option.splits sum.splits if_splits)

lemma resolve_unmatched_less:
  "resolve benum a1 a2 st b1 b2 algo = Inr st' \<Longrightarrow> block_matched (st_f1 st) b1 = Inr False
     \<Longrightarrow> unmatched (st_f1 st') < unmatched (st_f1 st)"
  by (auto simp: resolve_def block_matched_def unmatched_set_block_less
      split: option.splits sum.splits if_splits)

lemma block_matched_pos: "block_matched f b = Inr False \<Longrightarrow> 0 < unmatched f"
  by (auto simp: block_matched_def unmatched_pos split: option.splits)

lemma loop_measure_head_le:
  "fst (loop_measure (Inl (benum, a1, a2, st, b1, b2, algo, q))) \<le> unmatched (st_f1 st)"
  by (auto simp: loop_measure_def resolve_unmatched_le split: sum.splits)

lemma loop_measure_head_less:
  "block_matched (st_f1 st) b1 = Inr False \<Longrightarrow>
   fst (loop_measure (Inl (benum, a1, a2, st, b1, b2, algo, q))) < unmatched (st_f1 st)"
  by (auto simp: loop_measure_def resolve_unmatched_less block_matched_pos split: sum.splits)


lemma loop_measure_Inr [simp]:
  "loop_measure (Inr (benum, a1, a2, st, b1, b2, algo, q)) = (unmatched (st_f1 st), 2 * length q)"
  by (simp add: loop_measure_def)

lemma loop_measure_Inl_snd [simp]:
  "snd (loop_measure (Inl (benum, a1, a2, st, b1, b2, algo, q))) = 2 * length q + 1"
  by (simp add: loop_measure_def)

lemma loop_measure_Inl_fst:
  "resolve benum a1 a2 st b1 b2 algo = Inr st' \<Longrightarrow>
   fst (loop_measure (Inl (benum, a1, a2, st, b1, b2, algo, q))) = unmatched (st_f1 st')"
  by (simp add: loop_measure_def)

lemma in_loop_rel:
  "(x, y) \<in> inv_image (less_than <*lex*> less_than) loop_measure \<longleftrightarrow>
   fst (loop_measure x) < fst (loop_measure y) \<or>
   fst (loop_measure x) = fst (loop_measure y) \<and> snd (loop_measure x) < snd (loop_measure y)"
  by (cases "loop_measure x"; cases "loop_measure y") simp

lemma loop_rel_le:
  "fst (loop_measure x) \<le> fst (loop_measure y) \<Longrightarrow> snd (loop_measure x) < snd (loop_measure y)
   \<Longrightarrow> (x, y) \<in> inv_image (less_than <*lex*> less_than) loop_measure"
  unfolding in_loop_rel by linarith

lemma loop_rel_less:
  "fst (loop_measure x) < fst (loop_measure y)
   \<Longrightarrow> (x, y) \<in> inv_image (less_than <*lex*> less_than) loop_measure"
  unfolding in_loop_rel by simp

lemma st_f1_orphan [simp]: "st_f1 (orphan st p) = st_f1 st"
  by (simp add: orphan_def)

lemma st_f1_say [simp]: "st_f1 (say st m) = st_f1 st"
  by (simp add: say_def)

lemma unmatched_load_instruction_info [simp]:
  "unmatched (st_f1 (load_instruction_info a1 a2 st b1 b2 i1 i2)) = unmatched (st_f1 st)"
  by (simp add: load_instruction_info_def)

termination load_basic_block_info
proof (relation "inv_image (less_than <*lex*> less_than) loop_measure", goal_cases)
  case 1
  show ?case by (intro wf_inv_image wf_lex_prod wf_less_than)
next
  case (2 benum a1 a2 st bb_addr1 bb_addr2 algo p ps st')
  show ?case
    by (rule loop_rel_le) (simp_all add: loop_measure_Inl_fst[OF 2])
next
  case (3 benum a1 a2 st bb_addr1 bb_addr2 algo i_addr1 i_addr2 rest bb1 bb2)
  show ?case
    by (rule loop_rel_le) simp_all
next
  case (4 benum a1 a2 st bb_addr1 bb_addr2 algo i_addr1 i_addr2 rest bb1 bb2 nb1 nb2 m1)
  show ?case
    by (rule loop_rel_le)
      (use loop_measure_head_le[of benum a1 a2 "orphan (say st AlreadyMatched) (i_addr1, i_addr2)"]
        in simp_all)
next
  case (5 benum a1 a2 st bb_addr1 bb_addr2 algo i_addr1 i_addr2 rest bb1 bb2 nb1 nb2 m1 m2)
  show ?case
    by (rule loop_rel_le)
      (use loop_measure_head_le[of benum a1 a2 "orphan (say st AlreadyMatched) (i_addr1, i_addr2)"]
        in simp_all)
next
  case (6 benum a1 a2 st bb_addr1 bb_addr2 algo i_addr1 i_addr2 rest bb1 bb2 nb1 nb2 m1 m2)
  then have "block_matched (st_f1 st) nb1 = Inr False" by simp
  then show ?case
    by (intro loop_rel_less) (use loop_measure_head_less in simp)
next
  case (7 benum a1 a2 st bb_addr1 bb_addr2 algo i_addr1 i_addr2 rest bb1 bb2)
  show ?case
    by (rule loop_rel_le)
      (use loop_measure_head_le[of benum a1 a2 "orphan st (i_addr1, i_addr2)"] in simp_all)
qed

section \<open>General lemmas\<close>

lemma has_key_map_of: "has_key xs k \<Longrightarrow> \<exists>v. map_of xs k = Some v"
  by (auto simp: has_key_def split: option.splits)

lemma block_match_of_set_block:
  "block_match_of (set_block ba r algo f) b =
     (if b = ba \<and> has_key (f_blocks f) ba then Some r else block_match_of f b)"
  by (auto simp: block_match_of_def set_block_def map_of_upd has_key_def split: option.splits)

lemma block_algorithm_of_set_block:
  "block_algorithm_of (set_block ba r algo f) b =
     (if b = ba \<and> has_key (f_blocks f) ba then Some algo else block_algorithm_of f b)"
  by (auto simp: block_algorithm_of_def set_block_def map_of_upd has_key_def split: option.splits)

lemma block_match_of_set_inst [simp]:
  "block_match_of (set_inst ba i r f) b = block_match_of f b"
  by (auto simp: block_match_of_def set_inst_def map_of_upd split: option.splits)

lemma block_algorithm_of_set_inst [simp]:
  "block_algorithm_of (set_inst ba i r f) b = block_algorithm_of f b"
  by (auto simp: block_algorithm_of_def set_inst_def map_of_upd split: option.splits)

lemma inst_match_of_set_block [simp]:
  "inst_match_of (set_block ba r algo f) b i = inst_match_of f b i"
  by (auto simp: inst_match_of_def set_block_def map_of_upd split: option.splits)

lemma load_drain_related:
  assumes trans: "\<And>s t u. R s t \<Longrightarrow> R t u \<Longrightarrow> R s u"
      and refl: "\<And>s. R s s"
      and orp: "\<And>s p. R s (orphan s p)"
      and msg: "\<And>s m. R s (say s m)"
  shows "\<forall>s b1 b2 algo t. resolve benum a1 a2 s b1 b2 algo = Inr t \<longrightarrow> R s t \<Longrightarrow>
         \<forall>s b1 b2 i1 i2. R s (load_instruction_info a1 a2 s b1 b2 i1 i2) \<Longrightarrow>
         load_basic_block_info benum a1 a2 st b1 b2 algo q = Inr st' \<Longrightarrow> R st st'"
    and "\<forall>s b1 b2 algo t. resolve benum a1 a2 s b1 b2 algo = Inr t \<longrightarrow> R s t \<Longrightarrow>
         \<forall>s b1 b2 i1 i2. R s (load_instruction_info a1 a2 s b1 b2 i1 i2) \<Longrightarrow>
         drain benum a1 a2 st b1 b2 algo q = Inr st' \<Longrightarrow> R st st'"
proof (induction benum a1 a2 st b1 b2 algo q and benum a1 a2 st b1 b2 algo q
       arbitrary: st' and st' rule: load_basic_block_info_drain.induct)
  case (1 benum a1 a2 st bb_addr1 bb_addr2 algo)
  then show ?case by (simp add: refl)
next
  case (2 benum a1 a2 st bb_addr1 bb_addr2 algo p ps)
  from "2.prems"(3) obtain st1 where
    r: "resolve benum a1 a2 st bb_addr1 bb_addr2 algo = Inr st1" and
    d: "drain benum a1 a2 st1 bb_addr1 bb_addr2 algo (p # ps) = Inr st'"
    by (auto split: sum.splits)
  from "2.IH"[OF r "2.prems"(1,2) d] have "R st1 st'" .
  moreover from r "2.prems"(1) have "R st st1" by blast
  ultimately show ?case by (blast intro: trans)
next
  case (3 benum a1 a2 st bb_addr1 bb_addr2 algo)
  then show ?case by (simp add: refl)
next
  case (4 benum a1 a2 st bb_addr1 bb_addr2 algo i_addr1 i_addr2 rest)
  note res = "4.prems"(1) and ins = "4.prems"(2) and run = "4.prems"(3)
  from run obtain bb1 bb2 where
    c1: "map_of (f_blocks (st_f1 st)) bb_addr1 = Some bb1" and
    c2: "map_of (f_blocks (st_f2 st)) bb_addr2 = Some bb2"
    by (auto split: option.splits)
  show ?case
  proof (cases "has_key (bb_insts bb1) i_addr1 \<and> has_key (bb_insts bb2) i_addr2")
    case True
    with run c1 c2 have
      "drain benum a1 a2 (load_instruction_info a1 a2 st bb_addr1 bb_addr2 i_addr1 i_addr2)
         bb_addr1 bb_addr2 algo rest = Inr st'" by simp
    from "4.IH"(1)[OF c1 c2 True res ins this]
    have "R (load_instruction_info a1 a2 st bb_addr1 bb_addr2 i_addr1 i_addr2) st'" .
    with ins show ?thesis by (blast intro: trans)
  next
    case direct: False
    show ?thesis
    proof (cases "\<not> has_key (bb_insts bb1) i_addr1 \<and> \<not> has_key (bb_insts bb2) i_addr2")
      case neither: True
      from run c1 c2 direct neither obtain nb1 nb2 m1 where
        o1: "owning_block (st_f1 st) i_addr1 = Inr nb1" and
        o2: "owning_block (st_f2 st) i_addr2 = Inr nb2" and
        k1: "block_matched (st_f1 st) nb1 = Inr m1"
        by (auto split: sum.splits)
      show ?thesis
      proof (cases m1)
        case True
        with run c1 c2 direct neither o1 o2 k1 have
          "load_basic_block_info benum a1 a2 (orphan (say st AlreadyMatched) (i_addr1, i_addr2))
             nb1 nb2 algo rest = Inr st'" by simp
        from "4.IH"(2)[OF c1 c2 direct neither o1 o2 k1 True res ins this]
        have "R (orphan (say st AlreadyMatched) (i_addr1, i_addr2)) st'" .
        moreover have "R st (orphan (say st AlreadyMatched) (i_addr1, i_addr2))"
          by (blast intro: trans orp msg)
        ultimately show ?thesis by (blast intro: trans)
      next
        case nm1: False
        with run c1 c2 direct neither o1 o2 k1 obtain m2 where
          k2: "block_matched (st_f2 st) nb2 = Inr m2"
          by (auto split: sum.splits)
        show ?thesis
        proof (cases m2)
          case True
          with run c1 c2 direct neither o1 o2 k1 nm1 k2 have
            "load_basic_block_info benum a1 a2 (orphan (say st AlreadyMatched) (i_addr1, i_addr2))
               nb1 nb2 algo rest = Inr st'" by simp
          from "4.IH"(3)[OF c1 c2 direct neither o1 o2 k1 nm1 k2 True res ins this]
          have "R (orphan (say st AlreadyMatched) (i_addr1, i_addr2)) st'" .
          moreover have "R st (orphan (say st AlreadyMatched) (i_addr1, i_addr2))"
            by (blast intro: trans orp msg)
          ultimately show ?thesis by (blast intro: trans)
        next
          case nm2: False
          with run c1 c2 direct neither o1 o2 k1 nm1 k2 have
            "load_basic_block_info benum a1 a2 st nb1 nb2 algo ((i_addr1, i_addr2) # rest) = Inr st'"
            by simp
          from "4.IH"(4)[OF c1 c2 direct neither o1 o2 k1 nm1 k2 nm2 res ins this]
          show ?thesis .
        qed
      qed
    next
      case one: False
      with run c1 c2 direct have
        "load_basic_block_info benum a1 a2 (orphan st (i_addr1, i_addr2))
           bb_addr1 bb_addr2 algo rest = Inr st'" by simp
      from "4.IH"(5)[OF c1 c2 direct one res ins this]
      have "R (orphan st (i_addr1, i_addr2)) st'" .
      with orp show ?thesis by (blast intro: trans)
    qed
  qed
qed

lemma load_groups_related:
  assumes trans: "\<And>s t u. R s t \<Longrightarrow> R t u \<Longrightarrow> R s u"
      and refl: "\<And>s. R s s"
      and orp: "\<And>s p. R s (orphan s p)"
      and msg: "\<And>s m. R s (say s m)"
      and res: "\<And>s b1 b2 algo t. resolve benum a1 a2 s b1 b2 algo = Inr t \<Longrightarrow> R s t"
      and ins: "\<And>s b1 b2 i1 i2. R s (load_instruction_info a1 a2 s b1 b2 i1 i2)"
  shows "load_groups benum a1 a2 st gs = Inr st' \<Longrightarrow> R st st'"
proof (induction gs arbitrary: st)
  case Nil
  then show ?case by (simp add: refl)
next
  case (Cons g gs)
  from Cons.prems obtain st1 where
    l: "load_basic_block_info benum a1 a2 st (d_bb_addr1 g) (d_bb_addr2 g) (d_bb_algo g)
          (d_inst_data g) = Inr st1" and
    r: "load_groups benum a1 a2 st1 gs = Inr st'"
    by (auto split: sum.splits)
  have "R st st1"
    by (rule load_drain_related(1)[where R = R, OF trans refl orp msg _ _ l])
       (use res ins in blast)+
  with Cons.IH[OF r] show ?case by (blast intro: trans)
qed

lemma same_function_set_block [simp]: "same_function f (set_block ba r algo f)"
  by (simp add: same_function_def set_block_def)

lemma same_function_set_inst [simp]: "same_function f (set_inst ba i r f)"
  by (simp add: same_function_def set_inst_def)

lemma same_function_refl [simp]: "same_function f f"
  by (simp add: same_function_def)

lemma same_function_trans: "same_function f g \<Longrightarrow> same_function g h \<Longrightarrow> same_function f h"
  by (simp add: same_function_def)

lemma resolve_fields:
  assumes "resolve benum a1 a2 s b1 b2 algo = Inr t"
  shows "st_f1 t = set_block b1 (BRef a2 b2) algo (st_f1 s)"
    and "st_f2 t = set_block b2 (BRef a1 b1) algo (st_f2 s)"
    and "st_single t = st_single s"
    and "has_key (f_blocks (st_f1 s)) b1" and "has_key (f_blocks (st_f2 s)) b2" and "benum algo"
  using assms
  by (auto simp: resolve_def has_key_def split: option.splits sum.splits if_splits)

lemma load_groups_same_function:
  assumes "load_groups benum a1 a2 st gs = Inr st'"
  shows "same_function (st_f1 st) (st_f1 st') \<and> same_function (st_f2 st) (st_f2 st')"
proof (rule load_groups_related[where R = "\<lambda>s t. same_function (st_f1 s) (st_f1 t) \<and>
          same_function (st_f2 s) (st_f2 t)", OF _ _ _ _ _ _ assms], goal_cases)
  case (1 s t u)
  then show ?case by (blast intro: same_function_trans)
next
  case (2 s)
  show ?case by simp
next
  case (3 s p)
  show ?case by (simp add: orphan_def)
next
  case (4 s m)
  show ?case by (simp add: say_def)
next
  case (5 s b1 b2 algo t)
  then show ?case by (simp add: resolve_fields)
next
  case (6 s b1 b2 i1 i2)
  show ?case by (simp add: load_instruction_info_def)
qed

lemma matches_kept_refl [simp]: "matches_kept f f"
  by (simp add: matches_kept_def)

lemma matches_kept_trans: "matches_kept f g \<Longrightarrow> matches_kept g h \<Longrightarrow> matches_kept f h"
  by (simp add: matches_kept_def)

lemma matches_kept_set_block [simp]: "matches_kept f (set_block ba r algo f)"
  by (simp add: matches_kept_def block_match_of_set_block)

lemma matches_kept_set_inst [simp]: "matches_kept f (set_inst ba i r f)"
  by (simp add: matches_kept_def)

lemma load_basic_block_info_matches_kept:
  assumes "load_basic_block_info benum a1 a2 st b1 b2 algo q = Inr st'"
  shows "matches_kept (st_f1 st) (st_f1 st') \<and> matches_kept (st_f2 st) (st_f2 st')"
proof (rule load_drain_related(1)[where R = "\<lambda>s t. matches_kept (st_f1 s) (st_f1 t) \<and>
          matches_kept (st_f2 s) (st_f2 t)", OF _ _ _ _ _ _ assms], goal_cases)
  case (1 s t u)
  then show ?case by (blast intro: matches_kept_trans)
next
  case (2 s)
  show ?case by simp
next
  case (3 s p)
  show ?case by (simp add: orphan_def)
next
  case (4 s m)
  show ?case by (simp add: say_def)
next
  case 5
  show ?case by (simp add: resolve_fields)
next
  case 6
  show ?case by (simp add: load_instruction_info_def)
qed

lemma drain_matches_kept:
  assumes "drain benum a1 a2 st b1 b2 algo q = Inr st'"
  shows "matches_kept (st_f1 st) (st_f1 st') \<and> matches_kept (st_f2 st) (st_f2 st')"
proof (rule load_drain_related(2)[where R = "\<lambda>s t. matches_kept (st_f1 s) (st_f1 t) \<and>
          matches_kept (st_f2 s) (st_f2 t)", OF _ _ _ _ _ _ assms], goal_cases)
  case (1 s t u)
  then show ?case by (blast intro: matches_kept_trans)
next
  case (2 s)
  show ?case by simp
next
  case (3 s p)
  show ?case by (simp add: orphan_def)
next
  case (4 s m)
  show ?case by (simp add: say_def)
next
  case 5
  show ?case by (simp add: resolve_fields)
next
  case 6
  show ?case by (simp add: load_instruction_info_def)
qed

lemma load_groups_matches_kept:
  assumes "load_groups benum a1 a2 st gs = Inr st'"
  shows "matches_kept (st_f1 st) (st_f1 st') \<and> matches_kept (st_f2 st) (st_f2 st')"
proof (rule load_groups_related[where R = "\<lambda>s t. matches_kept (st_f1 s) (st_f1 t) \<and>
          matches_kept (st_f2 s) (st_f2 t)", OF _ _ _ _ _ _ assms], goal_cases)
  case (1 s t u)
  then show ?case by (blast intro: matches_kept_trans)
next
  case (2 s)
  show ?case by simp
next
  case (3 s p)
  show ?case by (simp add: orphan_def)
next
  case (4 s m)
  show ?case by (simp add: say_def)
next
  case (5 s b1 b2 algo t)
  then show ?case by (simp add: resolve_fields)
next
  case (6 s b1 b2 i1 i2)
  show ?case by (simp add: load_instruction_info_def)
qed

lemma map_of_upd_const:
  "map_of (upd k (\<lambda>_. v) xs) k' = (if k' = k \<and> has_key xs k then Some v else map_of xs k')"
  by (auto simp: map_of_upd has_key_def split: option.splits)

lemma load_function_info_cases:
  assumes "load_function_info fenum benum s d = Inr s'"
  obtains f1 f2 st where
    "map_of (p_funcs (primary s)) (d_addr1 d) = Some f1"
    "map_of (p_funcs (secondary s)) (d_addr2 d) = Some f2"
    "fenum (d_algo d)"
    "load_groups benum (d_addr1 d) (d_addr2 d)
       \<lparr>st_f1 = annotate (d_similarity d) (d_confidence d) (d_algo d) (d_addr2 d) f1,
        st_f2 = annotate (d_similarity d) (d_confidence d) (d_algo d) (d_addr1 d) f2,
        st_single = single_match s, st_out = printed s\<rparr> (map snd (d_bbs d)) = Inr st"
    "s' = s\<lparr>primary := (primary s)\<lparr>p_funcs := upd (d_addr1 d) (\<lambda>_. st_f1 st) (p_funcs (primary s))\<rparr>,
            secondary := (secondary s)\<lparr>p_funcs := upd (d_addr2 d) (\<lambda>_. st_f2 st) (p_funcs (secondary s))\<rparr>,
            single_match := st_single st, printed := st_out st\<rparr>"
  using assms
  by (auto simp: load_function_info_def split: option.splits sum.splits if_splits)

lemma load_function_info_annotated:
  assumes "load_function_info fenum benum s d = Inr s'"
  shows "annotated s' d"
proof -
  from assms obtain f1 f2 st where
    f1: "map_of (p_funcs (primary s)) (d_addr1 d) = Some f1" and
    f2: "map_of (p_funcs (secondary s)) (d_addr2 d) = Some f2" and
    g: "load_groups benum (d_addr1 d) (d_addr2 d)
       \<lparr>st_f1 = annotate (d_similarity d) (d_confidence d) (d_algo d) (d_addr2 d) f1,
        st_f2 = annotate (d_similarity d) (d_confidence d) (d_algo d) (d_addr1 d) f2,
        st_single = single_match s, st_out = printed s\<rparr> (map snd (d_bbs d)) = Inr st" and
    s': "s' = s\<lparr>primary := (primary s)\<lparr>p_funcs := upd (d_addr1 d) (\<lambda>_. st_f1 st) (p_funcs (primary s))\<rparr>,
            secondary := (secondary s)\<lparr>p_funcs := upd (d_addr2 d) (\<lambda>_. st_f2 st) (p_funcs (secondary s))\<rparr>,
            single_match := st_single st, printed := st_out st\<rparr>"
    by (rule load_function_info_cases)
  from load_groups_same_function[OF g] have
    "same_function (annotate (d_similarity d) (d_confidence d) (d_algo d) (d_addr2 d) f1) (st_f1 st)"
    "same_function (annotate (d_similarity d) (d_confidence d) (d_algo d) (d_addr1 d) f2) (st_f2 st)"
    by simp_all
  then show ?thesis
    using f1 f2
    by (simp add: annotated_def s' map_of_upd_const has_key_def same_function_def annotate_def)
qed

lemma load_function_info_primary_frame:
  assumes "load_function_info fenum benum s d = Inr s'" and "a \<noteq> d_addr1 d"
  shows "map_of (p_funcs (primary s')) a = map_of (p_funcs (primary s)) a"
  using assms by (elim load_function_info_cases) (simp add: map_of_upd)

lemma load_function_info_secondary_frame:
  assumes "load_function_info fenum benum s d = Inr s'" and "a \<noteq> d_addr2 d"
  shows "map_of (p_funcs (secondary s')) a = map_of (p_funcs (secondary s)) a"
  using assms by (elim load_function_info_cases) (simp add: map_of_upd)

lemma load_all_frame:
  assumes "load_all fenum benum s ds = Inr s'"
  shows "a \<notin> d_addr1 ` set ds \<Longrightarrow> map_of (p_funcs (primary s')) a = map_of (p_funcs (primary s)) a"
    and "b \<notin> d_addr2 ` set ds \<Longrightarrow> map_of (p_funcs (secondary s')) b = map_of (p_funcs (secondary s)) b"
  using assms
proof (induction ds arbitrary: s)
  case Nil
  { case 1 then show ?case by simp }
  { case 2 then show ?case by simp }
next
  case (Cons d ds)
  { case 1
    from "1.prems"(2) obtain s1 where
      a: "load_function_info fenum benum s d = Inr s1" and b: "load_all fenum benum s1 ds = Inr s'"
      by (auto split: sum.splits)
    from "1.prems"(1) have "a \<noteq> d_addr1 d" "a \<notin> d_addr1 ` set ds" by auto
    with Cons.IH(1)[OF _ b] load_function_info_primary_frame[OF a] show ?case by simp }
  { case 2
    from "2.prems"(2) obtain s1 where
      a: "load_function_info fenum benum s d = Inr s1" and b: "load_all fenum benum s1 ds = Inr s'"
      by (auto split: sum.splits)
    from "2.prems"(1) have "b \<noteq> d_addr2 d" "b \<notin> d_addr2 ` set ds" by auto
    with Cons.IH(2)[OF _ b] load_function_info_secondary_frame[OF a] show ?case by simp }
qed

lemma load_all_annotated:
  assumes "load_all fenum benum s ds = Inr s'"
      and "distinct (map d_addr1 ds)"
      and "distinct (map d_addr2 ds)"
      and "d \<in> set ds"
  shows "annotated s' d"
  using assms
proof (induction ds arbitrary: s)
  case Nil
  then show ?case by simp
next
  case (Cons x ds)
  from Cons.prems(1) obtain s1 where
    a: "load_function_info fenum benum s x = Inr s1" and b: "load_all fenum benum s1 ds = Inr s'"
    by (auto split: sum.splits)
  show ?case
  proof (cases "d = x")
    case True
    from Cons.prems(2,3) True have "d_addr1 d \<notin> d_addr1 ` set ds" "d_addr2 d \<notin> d_addr2 ` set ds"
      by auto
    then have "map_of (p_funcs (primary s')) (d_addr1 d) = map_of (p_funcs (primary s1)) (d_addr1 d)"
      "map_of (p_funcs (secondary s')) (d_addr2 d) = map_of (p_funcs (secondary s1)) (d_addr2 d)"
      using load_all_frame(1)[OF b] load_all_frame(2)[OF b] by blast+
    with load_function_info_annotated[OF a] True
    show ?thesis by (auto simp: annotated_def split: option.splits)
  next
    case False
    with Cons.prems have "d \<in> set ds" "distinct (map d_addr1 ds)" "distinct (map d_addr2 ds)"
      by auto
    with Cons.IH[OF b] show ?thesis by simp
  qed
qed

lemma load_function_info_keys:
  assumes "load_function_info fenum benum s d = Inr s'"
  shows "map fst (p_funcs (primary s')) = map fst (p_funcs (primary s))"
    and "map fst (p_funcs (secondary s')) = map fst (p_funcs (secondary s))"
  using assms by (elim load_function_info_cases, simp)+

lemma has_key_fst: "has_key xs k \<longleftrightarrow> k \<in> set (map fst xs)"
proof (cases "map_of xs k")
  case None
  then have "k \<notin> fst ` set xs" by (simp add: map_of_eq_None_iff)
  with None show ?thesis by (simp add: has_key_def)
next
  case (Some v)
  then have "(k, v) \<in> set xs" by (rule map_of_SomeD)
  then have "k \<in> fst ` set xs" by force
  with Some show ?thesis by (simp add: has_key_def)
qed

lemma load_function_info_absent:
  assumes "\<not> has_key (p_funcs (primary s)) (d_addr1 d) \<or> \<not> has_key (p_funcs (secondary s)) (d_addr2 d)"
  shows "load_function_info fenum benum s d = Inl KeyError"
  using assms by (auto simp: load_function_info_def has_key_def split: option.splits)

lemma load_all_absent:
  assumes "d \<in> set ds"
      and "\<not> has_key (p_funcs (primary s)) (d_addr1 d) \<or> \<not> has_key (p_funcs (secondary s)) (d_addr2 d)"
  shows "\<exists>e. load_all fenum benum s ds = Inl e"
  using assms
proof (induction ds arbitrary: s)
  case Nil
  then show ?case by simp
next
  case (Cons x ds)
  show ?case
  proof (cases "load_function_info fenum benum s x")
    case (Inl e)
    then show ?thesis by simp
  next
    case (Inr s1)
    with Cons.prems(2) load_function_info_absent[of s x fenum benum] have "d \<noteq> x" by auto
    with Cons.prems(1) have "d \<in> set ds" by simp
    moreover from load_function_info_keys[OF Inr] Cons.prems(2) have
      "\<not> has_key (p_funcs (primary s1)) (d_addr1 d) \<or> \<not> has_key (p_funcs (secondary s1)) (d_addr2 d)"
      by (simp add: has_key_fst)
    ultimately have "\<exists>e. load_all fenum benum s1 ds = Inl e" by (rule Cons.IH)
    with Inr show ?thesis by simp
  qed
qed

lemma load_all_first_absent:
  assumes "load_all fenum benum s pre = Inr s1"
      and "\<not> has_key (p_funcs (primary s)) (d_addr1 d) \<or> \<not> has_key (p_funcs (secondary s)) (d_addr2 d)"
  shows "load_all fenum benum s (pre @ d # post) = Inl KeyError"
  using assms
proof (induction pre arbitrary: s)
  case Nil
  then show ?case by (simp add: load_function_info_absent)
next
  case (Cons x pre)
  from Cons.prems(1) obtain s2 where
    a: "load_function_info fenum benum s x = Inr s2" and b: "load_all fenum benum s2 pre = Inr s1"
    by (auto split: sum.splits)
  from load_function_info_keys[OF a] Cons.prems(2) have
    "\<not> has_key (p_funcs (primary s2)) (d_addr1 d) \<or> \<not> has_key (p_funcs (secondary s2)) (d_addr2 d)"
    by (simp add: has_key_fst)
  from Cons.IH[OF b this] a show ?case by simp
qed

lemma round_half_even_cases:
  "round_half_even x = \<lfloor>x\<rfloor> \<and> x - of_int \<lfloor>x\<rfloor> \<le> 1 / 2 \<or>
   round_half_even x = \<lfloor>x\<rfloor> + 1 \<and> 1 / 2 \<le> x - of_int \<lfloor>x\<rfloor>"
  by (auto simp: round_half_even_def Let_def)

lemma round_half_even_bounds:
  "of_int (round_half_even x) \<le> x + 1 / 2" "x - 1 / 2 \<le> of_int (round_half_even x)"
proof -
  have fl: "of_int \<lfloor>x\<rfloor> \<le> x" "x < of_int \<lfloor>x\<rfloor> + 1" by linarith+
  from round_half_even_cases[of x] show "of_int (round_half_even x) \<le> x + 1 / 2"
  proof
    assume "round_half_even x = \<lfloor>x\<rfloor> \<and> x - of_int \<lfloor>x\<rfloor> \<le> 1 / 2"
    then have "(of_int (round_half_even x) :: rat) = of_int \<lfloor>x\<rfloor>" by simp
    with fl show ?thesis by linarith
  next
    assume "round_half_even x = \<lfloor>x\<rfloor> + 1 \<and> 1 / 2 \<le> x - of_int \<lfloor>x\<rfloor>"
    then have "(of_int (round_half_even x) :: rat) = of_int \<lfloor>x\<rfloor> + 1"
      "1 / 2 \<le> x - of_int \<lfloor>x\<rfloor>" by simp_all
    then show ?thesis by linarith
  qed
  from round_half_even_cases[of x] show "x - 1 / 2 \<le> of_int (round_half_even x)"
  proof
    assume "round_half_even x = \<lfloor>x\<rfloor> \<and> x - of_int \<lfloor>x\<rfloor> \<le> 1 / 2"
    then have "(of_int (round_half_even x) :: rat) = of_int \<lfloor>x\<rfloor>"
      "x - of_int \<lfloor>x\<rfloor> \<le> 1 / 2" by simp_all
    then show ?thesis by linarith
  next
    assume "round_half_even x = \<lfloor>x\<rfloor> + 1 \<and> 1 / 2 \<le> x - of_int \<lfloor>x\<rfloor>"
    then have "(of_int (round_half_even x) :: rat) = of_int \<lfloor>x\<rfloor> + 1" by simp
    with fl show ?thesis by linarith
  qed
qed

lemma round_half_even_range:
  assumes "0 \<le> x" and "x \<le> of_int n"
  shows "0 \<le> round_half_even x \<and> round_half_even x \<le> n"
proof -
  have lo: "0 \<le> \<lfloor>x\<rfloor>" using assms(1) by simp
  have hi: "\<lfloor>x\<rfloor> \<le> n" using assms(2) by (simp add: floor_le_iff)
  show ?thesis
  proof (cases "\<lfloor>x\<rfloor> = n")
    case True
    with assms(2) have "x - of_int \<lfloor>x\<rfloor> \<le> 0" by simp
    then have "round_half_even x = \<lfloor>x\<rfloor>" by (simp add: round_half_even_def Let_def)
    with lo hi show ?thesis by simp
  next
    case False
    with hi have "\<lfloor>x\<rfloor> + 1 \<le> n" by simp
    moreover have "round_half_even x = \<lfloor>x\<rfloor> \<or> round_half_even x = \<lfloor>x\<rfloor> + 1"
      by (simp add: round_half_even_def Let_def)
    ultimately show ?thesis using lo by auto
  qed
qed

lemma format3_decimal: "format3 x = of_int (round_half_even (x * 1000)) / 1000"
  by (simp add: format3_def)

lemma format3_close: "\<bar>format3 x - x\<bar> \<le> 1 / 2000"
proof -
  define r :: rat where "r = of_int (round_half_even (x * 1000))"
  from round_half_even_bounds[of "x * 1000"] have "r \<le> x * 1000 + 1 / 2" "x * 1000 - 1 / 2 \<le> r"
    by (simp_all add: r_def)
  then have "r / 1000 - x \<le> 1 / 2000" "- (1 / 2000) \<le> r / 1000 - x" by linarith+
  then have "\<bar>r / 1000 - x\<bar> \<le> 1 / 2000" by (intro abs_leI) linarith+
  then show ?thesis by (simp add: format3_def r_def)
qed

lemma format3_unit:
  assumes "0 \<le> x" and "x \<le> 1"
  shows "0 \<le> format3 x \<and> format3 x \<le> 1"
proof -
  from assms have "0 \<le> x * 1000" "x * 1000 \<le> of_int 1000" by simp_all
  from round_half_even_range[OF this]
  have "0 \<le> round_half_even (x * 1000)" "round_half_even (x * 1000) \<le> 1000" by simp_all
  then have "(0::rat) \<le> of_int (round_half_even (x * 1000))"
    "(of_int (round_half_even (x * 1000)) :: rat) \<le> 1000"
    by simp_all
  then show ?thesis by (simp add: format3_def)
qed

lemma load_function_info_session_fields:
  assumes "load_function_info fenum benum s d = Inr s'"
  shows "similarity s' = similarity s \<and> confidence s' = confidence s \<and>
         created s' = created s \<and> modified s' = modified s \<and>
         p_similarity (primary s') = p_similarity (primary s) \<and>
         p_confidence (primary s') = p_confidence (primary s) \<and>
         p_similarity (secondary s') = p_similarity (secondary s) \<and>
         p_confidence (secondary s') = p_confidence (secondary s)"
  using assms by (elim load_function_info_cases) simp

lemma load_all_session_fields:
  assumes "load_all fenum benum s ds = Inr s'"
  shows "similarity s' = similarity s \<and> confidence s' = confidence s \<and>
         created s' = created s \<and> modified s' = modified s \<and>
         p_similarity (primary s') = p_similarity (primary s) \<and>
         p_confidence (primary s') = p_confidence (primary s) \<and>
         p_similarity (secondary s') = p_similarity (secondary s) \<and>
         p_confidence (secondary s') = p_confidence (secondary s)"
  using assms
proof (induction ds arbitrary: s)
  case Nil
  then show ?case by simp
next
  case (Cons d ds)
  from Cons.prems obtain s1 where
    a: "load_function_info fenum benum s d = Inr s1" and b: "load_all fenum benum s1 ds = Inr s'"
    by (auto split: sum.splits)
  from Cons.IH[OF b] load_function_info_session_fields[OF a] show ?case by simp
qed

lemma annotate_blocks [simp]: "f_blocks (annotate sim conf algo m f) = f_blocks f"
  by (simp add: annotate_def)

lemma block_match_of_annotate [simp]:
  "block_match_of (annotate sim conf algo m f) b = block_match_of f b"
  by (simp add: block_match_of_def)

lemma load_function_info_keeps_matches:
  assumes "load_function_info fenum benum s d = Inr s'"
  shows "program_block_match (primary s) g b \<noteq> None \<Longrightarrow> program_block_match (primary s') g b \<noteq> None"
    and "program_block_match (secondary s) g b \<noteq> None \<Longrightarrow> program_block_match (secondary s') g b \<noteq> None"
proof -
  from assms obtain f1 f2 st where
    f1: "map_of (p_funcs (primary s)) (d_addr1 d) = Some f1" and
    f2: "map_of (p_funcs (secondary s)) (d_addr2 d) = Some f2" and
    g: "load_groups benum (d_addr1 d) (d_addr2 d)
       \<lparr>st_f1 = annotate (d_similarity d) (d_confidence d) (d_algo d) (d_addr2 d) f1,
        st_f2 = annotate (d_similarity d) (d_confidence d) (d_algo d) (d_addr1 d) f2,
        st_single = single_match s, st_out = printed s\<rparr> (map snd (d_bbs d)) = Inr st" and
    s': "s' = s\<lparr>primary := (primary s)\<lparr>p_funcs := upd (d_addr1 d) (\<lambda>_. st_f1 st) (p_funcs (primary s))\<rparr>,
            secondary := (secondary s)\<lparr>p_funcs := upd (d_addr2 d) (\<lambda>_. st_f2 st) (p_funcs (secondary s))\<rparr>,
            single_match := st_single st, printed := st_out st\<rparr>"
    by (rule load_function_info_cases)
  from load_groups_matches_kept[OF g] have
    k1: "\<And>b. block_match_of f1 b \<noteq> None \<Longrightarrow> block_match_of (st_f1 st) b \<noteq> None" and
    k2: "\<And>b. block_match_of f2 b \<noteq> None \<Longrightarrow> block_match_of (st_f2 st) b \<noteq> None"
    by (simp_all add: matches_kept_def)
  show "program_block_match (primary s) g b \<noteq> None \<Longrightarrow> program_block_match (primary s') g b \<noteq> None"
    using f1 k1[of b]
    by (cases "g = d_addr1 d") (simp_all add: program_block_match_def s' map_of_upd)
  show "program_block_match (secondary s) g b \<noteq> None \<Longrightarrow> program_block_match (secondary s') g b \<noteq> None"
    using f2 k2[of b]
    by (cases "g = d_addr2 d") (simp_all add: program_block_match_def s' map_of_upd)
qed

lemma load_all_keeps_matches:
  assumes "load_all fenum benum s ds = Inr s'"
  shows "(program_block_match (primary s) g b \<noteq> None \<longrightarrow> program_block_match (primary s') g b \<noteq> None) \<and>
         (program_block_match (secondary s) g b \<noteq> None \<longrightarrow> program_block_match (secondary s') g b \<noteq> None)"
  using assms
proof (induction ds arbitrary: s)
  case Nil
  then show ?case by simp
next
  case (Cons d ds)
  from Cons.prems obtain s1 where
    a: "load_function_info fenum benum s d = Inr s1" and b: "load_all fenum benum s1 ds = Inr s'"
    by (auto split: sum.splits)
  from Cons.IH[OF b] load_function_info_keeps_matches[OF a, of g b] show ?case by blast
qed

lemma resolve_frame:
  assumes "resolve benum a1 a2 st b1 b2 algo = Inr st'"
  shows "b \<noteq> b1 \<Longrightarrow> map_of (f_blocks (st_f1 st')) b = map_of (f_blocks (st_f1 st)) b"
    and "b \<noteq> b2 \<Longrightarrow> map_of (f_blocks (st_f2 st')) b = map_of (f_blocks (st_f2 st)) b"
  by (simp_all add: resolve_fields[OF assms] set_block_def map_of_upd)

lemma block_has_set_inst [simp]: "block_has (set_inst ba i r f) b j = block_has f b j"
  by (auto simp: block_has_def set_inst_def map_of_upd split: option.splits)

lemma block_has_set_block [simp]: "block_has (set_block ba r algo f) b j = block_has f b j"
  by (auto simp: block_has_def set_block_def map_of_upd split: option.splits)

lemma inst_match_of_set_inst:
  "inst_match_of (set_inst ba i r f) b j =
     (if b = ba \<and> j = i \<and> block_has f ba i then Some r else inst_match_of f b j)"
  by (auto simp: inst_match_of_def set_inst_def block_has_def map_of_upd has_key_def
      split: option.splits)

lemma direct_pairs_simps [simp]:
  "direct_pairs a1 a2 ba1 ba2 st [] = st"
  "direct_pairs a1 a2 ba1 ba2 st (p # ps) =
     direct_pairs a1 a2 ba1 ba2 (load_instruction_info a1 a2 st ba1 ba2 (fst p) (snd p)) ps"
  by (simp_all add: direct_pairs_def)

lemma drain_direct:
  assumes "\<forall>p\<in>set q. block_has (st_f1 st) ba1 (fst p) \<and> block_has (st_f2 st) ba2 (snd p)"
  shows "drain benum a1 a2 st ba1 ba2 algo q = Inr (direct_pairs a1 a2 ba1 ba2 st q)"
  using assms
proof (induction q arbitrary: st)
  case Nil
  show ?case by simp
next
  case (Cons p ps)
  obtain i1 i2 where p: "p = (i1, i2)" by (cases p)
  from Cons.prems p have h: "block_has (st_f1 st) ba1 i1" "block_has (st_f2 st) ba2 i2" by simp_all
  then obtain bb1 bb2 where
    b: "map_of (f_blocks (st_f1 st)) ba1 = Some bb1" "map_of (f_blocks (st_f2 st)) ba2 = Some bb2"
       "has_key (bb_insts bb1) i1" "has_key (bb_insts bb2) i2"
    by (auto simp: block_has_def split: option.splits)
  have "\<forall>p\<in>set ps. block_has (st_f1 (load_instruction_info a1 a2 st ba1 ba2 i1 i2)) ba1 (fst p) \<and>
          block_has (st_f2 (load_instruction_info a1 a2 st ba1 ba2 i1 i2)) ba2 (snd p)"
    using Cons.prems by (simp add: load_instruction_info_def)
  from Cons.IH[OF this] b show ?case by (simp add: p)
qed

lemma direct_pairs_fields:
  "st_single (direct_pairs a1 a2 ba1 ba2 st q) = st_single st"
  "st_out (direct_pairs a1 a2 ba1 ba2 st q) = st_out st"
  "block_match_of (st_f1 (direct_pairs a1 a2 ba1 ba2 st q)) b = block_match_of (st_f1 st) b"
  "block_match_of (st_f2 (direct_pairs a1 a2 ba1 ba2 st q)) b = block_match_of (st_f2 st) b"
  "block_algorithm_of (st_f1 (direct_pairs a1 a2 ba1 ba2 st q)) b = block_algorithm_of (st_f1 st) b"
  "block_algorithm_of (st_f2 (direct_pairs a1 a2 ba1 ba2 st q)) b = block_algorithm_of (st_f2 st) b"
  by (induction q arbitrary: st; simp add: load_instruction_info_def)+

lemma direct_pairs_other:
  "i \<notin> fst ` set q \<Longrightarrow>
     inst_match_of (st_f1 (direct_pairs a1 a2 ba1 ba2 st q)) ba1 i = inst_match_of (st_f1 st) ba1 i"
  "j \<notin> snd ` set q \<Longrightarrow>
     inst_match_of (st_f2 (direct_pairs a1 a2 ba1 ba2 st q)) ba2 j = inst_match_of (st_f2 st) ba2 j"
  by (induction q arbitrary: st; simp add: load_instruction_info_def inst_match_of_set_inst)+

lemma direct_pairs_matched:
  assumes "\<forall>p\<in>set q. block_has (st_f1 st) ba1 (fst p) \<and> block_has (st_f2 st) ba2 (snd p)"
      and "distinct (map fst q)" and "distinct (map snd q)" and "(i1, i2) \<in> set q"
  shows "inst_match_of (st_f1 (direct_pairs a1 a2 ba1 ba2 st q)) ba1 i1 = Some (IRef a2 ba2 i2) \<and>
         inst_match_of (st_f2 (direct_pairs a1 a2 ba1 ba2 st q)) ba2 i2 = Some (IRef a1 ba1 i1)"
  using assms
proof (induction q arbitrary: st)
  case Nil
  then show ?case by simp
next
  case (Cons p ps)
  let ?st = "load_instruction_info a1 a2 st ba1 ba2 (fst p) (snd p)"
  have inv: "\<forall>p\<in>set ps. block_has (st_f1 ?st) ba1 (fst p) \<and> block_has (st_f2 ?st) ba2 (snd p)"
    using Cons.prems(1) by (simp add: load_instruction_info_def)
  show ?case
  proof (cases "p = (i1, i2)")
    case True
    with Cons.prems(2,3) have "i1 \<notin> fst ` set ps" "i2 \<notin> snd ` set ps" by auto
    from direct_pairs_other(1)[OF this(1)] direct_pairs_other(2)[OF this(2)] Cons.prems(1) True
    show ?thesis by (simp add: load_instruction_info_def inst_match_of_set_inst)
  next
    case False
    with Cons.prems have "(i1, i2) \<in> set ps" "distinct (map fst ps)" "distinct (map snd ps)"
      by auto
    from Cons.IH[OF inv this(2,3,1)] show ?thesis by simp
  qed
qed

lemma conflict_report_both:
  assumes "truthy (bb_match bb1) = truthy (bb_match bb2)"
  shows "\<exists>msgs. conflict_report a1 a2 bb_addr1 bb_addr2 bb1 bb2 = Inr msgs"
proof (cases "bb_match bb1")
  case None
  with assms have "bb_match bb2 = None" by (cases "bb_match bb2") (simp_all add: truthy_def)
  with None show ?thesis by (simp add: conflict_report_def truthy_def)
next
  case (Some r1)
  with assms obtain r2 where r2: "bb_match bb2 = Some r2"
    by (cases "bb_match bb2") (simp_all add: truthy_def)
  obtain g1 m1 where "r1 = BRef g1 m1" by (cases r1)
  moreover obtain g2 m2 where "r2 = BRef g2 m2" by (cases r2)
  ultimately show ?thesis using Some r2 by (simp add: conflict_report_def truthy_def)
qed

text \<open>Every group the constructor builds from the rows of the store has a pair.\<close>

lemma upd_map: "upd k g xs = map (\<lambda>(k', v). (k', if k' = k then g v else v)) xs"
  by (induction xs) auto

lemma set_upd: "set (upd k g xs) = (\<lambda>(k', v). (k', if k' = k then g v else v)) ` set xs"
  by (simp add: upd_map)

lemma set_put: "set (put k v xs) \<subseteq> insert (k, v) (set xs)"
proof (induction xs)
  case Nil
  show ?case by simp
next
  case (Cons x xs)
  obtain k' v' where x: "x = (k', v')" by (cases x)
  from Cons show ?case by (cases "k' = k") (auto simp: x)
qed

lemma function_dict_no_groups:
  assumes "(k, d) \<in> set (function_dict rows)"
  shows "d_bbs d = []"
proof -
  have "\<forall>(k, d) \<in> set (foldl (\<lambda>funs (f_id, a1, a2, sim, conf, algo).
              put f_id \<lparr>d_addr1 = a1, d_addr2 = a2, d_similarity = sim, d_confidence = conf,
                        d_algo = algo, d_bbs = []\<rparr> funs) acc rows). d_bbs d = []"
    if "\<forall>(k, d) \<in> set acc. d_bbs d = []" for acc
    using that
  proof (induction rows arbitrary: acc)
    case Nil
    then show ?case by simp
  next
    case (Cons r rows)
    obtain f_id a1 a2 sim conf algo where r: "r = (f_id, a1, a2, sim, conf, algo)"
      by (cases r)
    have "\<forall>(k, d) \<in> set (put f_id \<lparr>d_addr1 = a1, d_addr2 = a2, d_similarity = sim,
              d_confidence = conf, d_algo = algo, d_bbs = []\<rparr> acc). d_bbs d = []"
      using Cons.prems set_put[of f_id _ acc] by fastforce
    from Cons.IH[OF this] show ?case by (simp add: r)
  qed
  from this[of "[]"] assms show ?thesis by (auto simp: function_dict_def)
qed

lemma add_row_nonempty:
  assumes "add_row funs r = Inr funs'" and "groups_nonempty funs"
  shows "groups_nonempty funs'"
proof -
  obtain f_id bb_id bb_addr1 bb_addr2 bb_algo i1 i2 where
    r: "r = (f_id, bb_id, bb_addr1, bb_addr2, bb_algo, i1, i2)" by (cases r)
  define h1 :: "f_data \<Rightarrow> f_data" where "h1 = (\<lambda>d. d\<lparr>d_bbs :=
      upd bb_id (\<lambda>g. g\<lparr>d_inst_data := d_inst_data g @ [(i1, i2)]\<rparr>) (d_bbs d)\<rparr>)"
  define h2 :: "f_data \<Rightarrow> f_data" where "h2 = (\<lambda>d. d\<lparr>d_bbs :=
      put bb_id \<lparr>d_bb_addr1 = bb_addr1, d_bb_addr2 = bb_addr2,
                 d_bb_algo = bb_algo, d_inst_data = [(i1, i2)]\<rparr> (d_bbs d)\<rparr>)"
  have step: "(j, g) \<in> set (d_bbs d0) \<or> d_inst_data g \<noteq> []"
    if "(j, g) \<in> set (d_bbs (h d0))" "h = h1 \<or> h = h2" for h d0 j g
  proof -
    from that(2) show ?thesis
    proof
      assume "h = h1"
      with that(1) show ?thesis by (auto simp: h1_def set_upd split: if_splits)
    next
      assume "h = h2"
      with that(1) set_put[of bb_id _ "d_bbs d0"] show ?thesis by (fastforce simp: h2_def)
    qed
  qed
  from assms(1) r obtain h where funs': "funs' = upd f_id h funs" and hh: "h = h1 \<or> h = h2"
    by (auto simp: add_row_def h1_def h2_def split: option.splits if_splits)
  show ?thesis
    unfolding groups_nonempty_def
  proof (intro allI impI)
    fix k d j g
    assume m: "(k, d) \<in> set funs' \<and> (j, g) \<in> set (d_bbs d)"
    with funs' obtain d0 where d0: "(k, d0) \<in> set funs" "d = (if k = f_id then h d0 else d0)"
      by (auto simp: set_upd)
    show "d_inst_data g \<noteq> []"
    proof (cases "k = f_id")
      case True
      with d0 m have "(j, g) \<in> set (d_bbs (h d0))" by simp
      from step[OF this hh] d0(1) assms(2) show ?thesis unfolding groups_nonempty_def by blast
    next
      case False
      with d0 m assms(2) show ?thesis unfolding groups_nonempty_def by auto
    qed
  qed
qed

lemma add_rows_nonempty:
  assumes "add_rows (function_dict fun_rows) rows = Inr funs"
  shows "groups_nonempty funs"
proof -
  have "groups_nonempty funs" if "add_rows acc rows = Inr funs" "groups_nonempty acc" for acc
    using that
  proof (induction rows arbitrary: acc)
    case Nil
    then show ?case by simp
  next
    case (Cons r rows)
    from Cons.prems(1) obtain acc' where
      a: "add_row acc r = Inr acc'" and b: "add_rows acc' rows = Inr funs"
      by (auto split: sum.splits)
    from Cons.IH[OF b add_row_nonempty[OF a Cons.prems(2)]] show ?case .
  qed
  moreover have "groups_nonempty (function_dict fun_rows)"
    unfolding groups_nonempty_def using function_dict_no_groups by fastforce
  ultimately show ?thesis using assms by blast
qed

text \<open>
  The search of lines 147 and 148 in a well-formed function: when some block holds the
  address, the search returns the address of a block that holds it. When the address
  is a block address the result is that address; otherwise it is the address of the
  first block, in the order of the dict, that holds the address.
\<close>

lemma owning_block_finds:
  assumes wf: "well_formed f" and held: "block_has f c i"
  shows "\<exists>nb. owning_block f i = Inr nb \<and> block_has f nb i"
proof (cases "has_key (f_blocks f) i")
  case True
  then obtain x where x: "map_of (f_blocks f) i = Some x"
    by (auto simp: has_key_def split: option.splits)
  then have "(i, x) \<in> set (f_blocks f)" by (rule map_of_SomeD)
  with wf have "has_key (bb_insts x) i" by (auto simp: well_formed_def list_all_iff)
  with x True show ?thesis by (simp add: owning_block_def block_has_def)
next
  case False
  from held obtain y where y: "map_of (f_blocks f) c = Some y" "has_key (bb_insts y) i"
    by (auto simp: block_has_def split: option.splits)
  then have "(c, y) \<in> set (filter (\<lambda>(k, x). has_key (bb_insts x) i) (f_blocks f))"
    by (auto dest: map_of_SomeD)
  then obtain k x rest where
    fl: "filter (\<lambda>(k, x). has_key (bb_insts x) i) (f_blocks f) = (k, x) # rest"
    by (cases "filter (\<lambda>(k, x). has_key (bb_insts x) i) (f_blocks f)") auto
  then have "(k, x) \<in> set (filter (\<lambda>(k, x). has_key (bb_insts x) i) (f_blocks f))" by simp
  then have mem: "(k, x) \<in> set (f_blocks f)" and hx: "has_key (bb_insts x) i" by auto
  from wf mem have "map_of (f_blocks f) k = Some x" by (simp add: well_formed_def)
  with hx have "block_has f k i" by (simp add: block_has_def)
  moreover from False fl have "owning_block f i = Inr k" by (simp add: owning_block_def)
  ultimately show ?thesis by blast
qed

lemma owning_block_first:
  assumes "\<not> has_key (f_blocks f) i"
      and "filter (\<lambda>(k, x). has_key (bb_insts x) i) (f_blocks f) = (k, x) # others"
  shows "owning_block f i = Inr k"
  using assms by (simp add: owning_block_def)

lemma owning_block_none:
  assumes "\<not> has_key (f_blocks f) i"
      and "filter (\<lambda>(k, x). has_key (bb_insts x) i) (f_blocks f) = []"
  shows "owning_block f i = Inl IndexError"
  using assms by (simp add: owning_block_def)

section \<open>The claims\<close>

lemmas example_defs =
  fresh_block_def fresh_func_def fresh_program_def ex_primary_def ex_secondary_def ex_enum_def
  ex_strptime_def ex_session_def ex_st_def ex_matched_def ex_conflict_def ex_record1_def
  ex_record2_def

lemmas loader_defs =
  resolve_def conflict_report_def set_block_def set_inst_def load_instruction_info_def
  owning_block_def block_matched_def orphan_def say_def has_key_def truthy_def

lemmas constructor_defs =
  init_def load_metadata_def apply_metadata_def function_dict_def add_row_def
  load_function_info_def annotate_def format3_def round_half_even_def

lemmas reading_defs =
  block_match_of_def block_algorithm_of_def inst_match_of_def block_has_def
  program_block_match_def annotated_def

text \<open>The two example states are what the block loader produces from the fresh state.\<close>

lemma ex_matched_reached:
  "load_basic_block_info ex_enum 100 200 ex_st 10 20 1 [(10, 20)] = Inr ex_matched"
  by (simp add: example_defs loader_defs)

lemma ex_conflict_reached:
  "load_basic_block_info ex_enum 100 200 ex_matched 18 30 1 [(18, 30)] = Inr ex_conflict"
  by (simp add: example_defs loader_defs)

subsection \<open>C1: a group whose declared blocks hold all its pairs\<close>

text \<open>
  Where the conflict report of lines 135 to 137 does not raise, the claim holds: for a
  non-empty group (the constructor only builds non-empty ones, \<open>add_rows_nonempty\<close>)
  whose declared addresses are blocks of the two functions that hold every pair, with
  a valid algorithm, the call returns, the two blocks are matched to each other and
  carry the algorithm, and \<^verbatim>\<open>single_match\<close> is as it was; when no instruction address
  occurs in two pairs of the group, every pair is matched both ways. The report does
  not raise when both blocks have a match or neither has.
\<close>

lemma direct_group_resolves:
  assumes b1: "map_of (f_blocks (st_f1 st)) bb_addr1 = Some bb1"
      and b2: "map_of (f_blocks (st_f2 st)) bb_addr2 = Some bb2"
      and contained:
        "\<forall>p\<in>set inst_data. has_key (bb_insts bb1) (fst p) \<and> has_key (bb_insts bb2) (snd p)"
      and nonempty: "inst_data \<noteq> []"
      and algo: "benum algo"
      and both: "truthy (bb_match bb1) = truthy (bb_match bb2)"
      and d1: "distinct (map fst inst_data)" and d2: "distinct (map snd inst_data)"
  shows "\<exists>st'. load_basic_block_info benum a1 a2 st bb_addr1 bb_addr2 algo inst_data = Inr st' \<and>
           block_match_of (st_f1 st') bb_addr1 = Some (BRef a2 bb_addr2) \<and>
           block_match_of (st_f2 st') bb_addr2 = Some (BRef a1 bb_addr1) \<and>
           block_algorithm_of (st_f1 st') bb_addr1 = Some algo \<and>
           block_algorithm_of (st_f2 st') bb_addr2 = Some algo \<and>
           (\<forall>p\<in>set inst_data.
              inst_match_of (st_f1 st') bb_addr1 (fst p) = Some (IRef a2 bb_addr2 (snd p)) \<and>
              inst_match_of (st_f2 st') bb_addr2 (snd p) = Some (IRef a1 bb_addr1 (fst p))) \<and>
           st_single st' = st_single st"
proof -
  from conflict_report_both[OF both] obtain msgs where
    rep: "conflict_report a1 a2 bb_addr1 bb_addr2 bb1 bb2 = Inr msgs" by blast
  define st1 where "st1 = st\<lparr>st_f1 := set_block bb_addr1 (BRef a2 bb_addr2) algo (st_f1 st),
                             st_f2 := set_block bb_addr2 (BRef a1 bb_addr1) algo (st_f2 st),
                             st_out := st_out st @ msgs\<rparr>"
  have res: "resolve benum a1 a2 st bb_addr1 bb_addr2 algo = Inr st1"
    using b1 b2 rep algo by (simp add: resolve_def st1_def)
  have k: "has_key (f_blocks (st_f1 st)) bb_addr1" "has_key (f_blocks (st_f2 st)) bb_addr2"
    using b1 b2 by (simp_all add: has_key_def)
  have inv: "\<forall>p\<in>set inst_data. block_has (st_f1 st1) bb_addr1 (fst p) \<and>
               block_has (st_f2 st1) bb_addr2 (snd p)"
  proof -
    have "block_has (st_f1 st) bb_addr1 i = has_key (bb_insts bb1) i"
      "block_has (st_f2 st) bb_addr2 i = has_key (bb_insts bb2) i" for i
      using b1 b2 by (simp_all add: block_has_def)
    with contained show ?thesis by (simp add: st1_def)
  qed
  define st' where "st' = direct_pairs a1 a2 bb_addr1 bb_addr2 st1 inst_data"
  from nonempty obtain p ps where q: "inst_data = p # ps" by (cases inst_data) auto
  have run: "load_basic_block_info benum a1 a2 st bb_addr1 bb_addr2 algo inst_data = Inr st'"
    using res drain_direct[OF inv, of benum a1 a2 algo]
    by (simp add: q st'_def del: drain.simps direct_pairs_simps)
  have m: "block_match_of (st_f1 st') bb_addr1 = Some (BRef a2 bb_addr2)"
    "block_match_of (st_f2 st') bb_addr2 = Some (BRef a1 bb_addr1)"
    "block_algorithm_of (st_f1 st') bb_addr1 = Some algo"
    "block_algorithm_of (st_f2 st') bb_addr2 = Some algo"
    "st_single st' = st_single st"
    using k
    by (simp_all add: st'_def direct_pairs_fields st1_def block_match_of_set_block
        block_algorithm_of_set_block)
  have i: "\<forall>p\<in>set inst_data.
              inst_match_of (st_f1 st') bb_addr1 (fst p) = Some (IRef a2 bb_addr2 (snd p)) \<and>
              inst_match_of (st_f2 st') bb_addr2 (snd p) = Some (IRef a1 bb_addr1 (fst p))"
  proof
    fix p assume "p \<in> set inst_data"
    then have "(fst p, snd p) \<in> set inst_data" by simp
    from direct_pairs_matched[OF inv d1 d2 this]
    show "inst_match_of (st_f1 st') bb_addr1 (fst p) = Some (IRef a2 bb_addr2 (snd p)) \<and>
          inst_match_of (st_f2 st') bb_addr2 (snd p) = Some (IRef a1 bb_addr1 (fst p))"
      by (simp add: st'_def)
  qed
  from run m i show ?thesis by blast
qed

text \<open>
  Claim C1: for every basic-block group whose declared block addresses resolve to
  blocks that hold every instruction pair of the group, propagation matches the two
  blocks to each other, sets their algorithm, matches every instruction pair both
  ways and appends nothing to \<^verbatim>\<open>single_match\<close>.

  The code breaks this when exactly one of the two declared blocks already has a
  match. The store below has one function pair (100, 200) and two groups: blocks 10
  and 20 with the pair (10, 20), then blocks 10 and 30 with the pair (14, 30). Block
  10 holds instruction 14 and block 30 holds instruction 30, so the second group is
  one the claim speaks of. When it is resolved, block 10 is matched to block 20 and
  block 30 has no match: line 137 reads \<^verbatim>\<open>bb2.match.addr\<close> of \<^verbatim>\<open>None\<close>, and the
  \<^verbatim>\<open>AttributeError\<close> ends the constructor.
\<close>

theorem C1_direct_group_raises:
  "block_has (fresh_func [(10, [10, 14]), (18, [18])]) 10 14 \<and>
   block_has (fresh_func [(20, [20]), (30, [30]), (40, [40])]) 30 30 \<and>
   init ex_strptime ex_enum ex_enum ex_primary ex_secondary
     (Some (''2020-01-02 03:04:05'', ''2020-01-02 03:04:05'', 19 / 20, 9 / 10))
     [(1, 100, 200, 19 / 20, 9 / 10, 1)]
     [(1, 1, 10, 20, 2, 10, 20), (1, 2, 10, 30, 2, 14, 30)]
   = Inl AttributeError"
  by (simp add: example_defs loader_defs constructor_defs reading_defs)

subsection \<open>C2: recovery into a new block pair\<close>

text \<open>
  The step of the inner loop once the search has returned: \<open>bb1\<close> and \<open>bb2\<close> are the
  current blocks, \<open>nb1\<close> and \<open>nb2\<close> the addresses returned by the search of lines 147
  and 148, \<open>x1\<close> and \<open>x2\<close> the blocks there.
\<close>

lemma recovery_restart:
  assumes cur1: "map_of (f_blocks (st_f1 st)) bb_addr1 = Some bb1"
      and cur2: "map_of (f_blocks (st_f2 st)) bb_addr2 = Some bb2"
      and miss1: "\<not> has_key (bb_insts bb1) i1"
      and miss2: "\<not> has_key (bb_insts bb2) i2"
      and own1: "owning_block (st_f1 st) i1 = Inr nb1"
      and own2: "owning_block (st_f2 st) i2 = Inr nb2"
      and new1: "map_of (f_blocks (st_f1 st)) nb1 = Some x1"
      and new2: "map_of (f_blocks (st_f2 st)) nb2 = Some x2"
      and in1: "has_key (bb_insts x1) i1"
      and in2: "has_key (bb_insts x2) i2"
      and free1: "bb_match x1 = None"
      and free2: "bb_match x2 = None"
      and algo: "benum algo"
  shows "\<exists>st'.
           drain benum a1 a2 st bb_addr1 bb_addr2 algo ((i1, i2) # rest)
             = load_basic_block_info benum a1 a2 st nb1 nb2 algo ((i1, i2) # rest) \<and>
           load_basic_block_info benum a1 a2 st nb1 nb2 algo ((i1, i2) # rest)
             = drain benum a1 a2 st' nb1 nb2 algo rest \<and>
           block_match_of (st_f1 st') nb1 = Some (BRef a2 nb2) \<and>
           block_match_of (st_f2 st') nb2 = Some (BRef a1 nb1) \<and>
           block_algorithm_of (st_f1 st') nb1 = Some algo \<and>
           block_algorithm_of (st_f2 st') nb2 = Some algo \<and>
           inst_match_of (st_f1 st') nb1 i1 = Some (IRef a2 nb2 i2) \<and>
           inst_match_of (st_f2 st') nb2 i2 = Some (IRef a1 nb1 i1) \<and>
           st_single st' = st_single st \<and>
           st_out st' = st_out st"
proof -
  define st1 where "st1 = st\<lparr>st_f1 := set_block nb1 (BRef a2 nb2) algo (st_f1 st),
                             st_f2 := set_block nb2 (BRef a1 nb1) algo (st_f2 st),
                             st_out := st_out st @ []\<rparr>"
  define st' where "st' = load_instruction_info a1 a2 st1 nb1 nb2 i1 i2"
  have m1: "block_matched (st_f1 st) nb1 = Inr False"
    using new1 free1 by (simp add: block_matched_def truthy_def)
  have m2: "block_matched (st_f2 st) nb2 = Inr False"
    using new2 free2 by (simp add: block_matched_def truthy_def)
  have requeue: "drain benum a1 a2 st bb_addr1 bb_addr2 algo ((i1, i2) # rest)
      = load_basic_block_info benum a1 a2 st nb1 nb2 algo ((i1, i2) # rest)"
    using cur1 cur2 miss1 miss2 own1 own2 m1 m2 by simp
  have res: "resolve benum a1 a2 st nb1 nb2 algo = Inr st1"
    using new1 new2 free1 free2 algo
    by (simp add: resolve_def conflict_report_def truthy_def st1_def)
  have k1: "has_key (f_blocks (st_f1 st)) nb1" and k2: "has_key (f_blocks (st_f2 st)) nb2"
    using new1 new2 by (simp_all add: has_key_def)
  have n1: "map_of (f_blocks (st_f1 st1)) nb1
              = Some (x1\<lparr>bb_match := Some (BRef a2 nb2), bb_algorithm := Some algo\<rparr>)"
    using new1 by (simp add: st1_def set_block_def map_of_upd)
  have n2: "map_of (f_blocks (st_f2 st1)) nb2
              = Some (x2\<lparr>bb_match := Some (BRef a1 nb1), bb_algorithm := Some algo\<rparr>)"
    using new2 by (simp add: st1_def set_block_def map_of_upd)
  have step: "drain benum a1 a2 st1 nb1 nb2 algo ((i1, i2) # rest)
      = drain benum a1 a2 st' nb1 nb2 algo rest"
    using n1 n2 in1 in2 by (simp add: st'_def)
  have restart: "load_basic_block_info benum a1 a2 st nb1 nb2 algo ((i1, i2) # rest)
      = drain benum a1 a2 st' nb1 nb2 algo rest"
    using res step by simp
  have b1: "block_match_of (st_f1 st') nb1 = Some (BRef a2 nb2)"
    using k1 by (simp add: st'_def st1_def load_instruction_info_def block_match_of_set_block)
  have b2: "block_match_of (st_f2 st') nb2 = Some (BRef a1 nb1)"
    using k2 by (simp add: st'_def st1_def load_instruction_info_def block_match_of_set_block)
  have g1: "block_algorithm_of (st_f1 st') nb1 = Some algo"
    using k1 by (simp add: st'_def st1_def load_instruction_info_def block_algorithm_of_set_block)
  have g2: "block_algorithm_of (st_f2 st') nb2 = Some algo"
    using k2 by (simp add: st'_def st1_def load_instruction_info_def block_algorithm_of_set_block)
  have j1: "inst_match_of (st_f1 st') nb1 i1 = Some (IRef a2 nb2 i2)"
    using n1 in1
    by (simp add: st'_def load_instruction_info_def inst_match_of_set_inst block_has_def)
  have j2: "inst_match_of (st_f2 st') nb2 i2 = Some (IRef a1 nb1 i1)"
    using n2 in2
    by (simp add: st'_def load_instruction_info_def inst_match_of_set_inst block_has_def)
  have s: "st_single st' = st_single st" and out: "st_out st' = st_out st"
    by (simp_all add: st'_def st1_def load_instruction_info_def)
  from requeue restart b1 b2 g1 g2 j1 j2 s out show ?thesis by blast
qed

text \<open>
  The state \<open>ex_inner\<close> is what the block loader produces from the fresh graphs.
\<close>

lemma ex_inner_reached:
  "load_basic_block_info ex_enum 100 200
     \<lparr>st_f1 = fresh_func [(10, [10]), (18, [18, 22])],
      st_f2 = fresh_func [(20, [20]), (30, [30, 34])],
      st_single = [], st_out = []\<rparr> 10 20 1 [(10, 20)] = Inr ex_inner"
  by (simp add: ex_inner_def example_defs loader_defs)

text \<open>
  Claim C2: while a group is drained, when the pair \<open>(i1, i2)\<close> fails the direct lookup
  with neither address in the current blocks, both addresses are found in blocks of
  their functions, and neither of the blocks found has a match, the pair is put back
  at the front of the queue and resolution restarts with the addresses of the blocks
  found; the pair ends up matched inside the newly matched block pair and not in
  \<^verbatim>\<open>single_match\<close>.

  The two functions are well formed; \<open>bb_addr1\<close> and \<open>bb_addr2\<close> are the current blocks,
  which hold neither address; some block \<open>c1\<close> of the primary function holds \<open>i1\<close> and
  some block \<open>c2\<close> of the secondary function holds \<open>i2\<close>; no block that holds \<open>i1\<close> or
  \<open>i2\<close> has a match. \<open>benum algo\<close> holds whenever the inner loop runs, since line 139
  has built the enumeration member before. Then the search of lines 147 and 148
  returns the addresses \<open>nb1\<close> and \<open>nb2\<close> of blocks that hold \<open>i1\<close> and \<open>i2\<close>; the inner
  loop restarts the resolution there with the pair at the front of the queue; and the
  restarted loop consumes the pair and goes on with the rest of the queue from a state
  \<open>st'\<close> in which the two blocks and the two instructions are matched to each other and
  \<^verbatim>\<open>single_match\<close> and the output are unchanged.
\<close>

theorem C2_recovery_matches_new_block_pair:
  assumes wf1: "well_formed (st_f1 st)"
      and wf2: "well_formed (st_f2 st)"
      and cur1: "has_key (f_blocks (st_f1 st)) bb_addr1"
      and cur2: "has_key (f_blocks (st_f2 st)) bb_addr2"
      and miss1: "\<not> block_has (st_f1 st) bb_addr1 i1"
      and miss2: "\<not> block_has (st_f2 st) bb_addr2 i2"
      and held1: "block_has (st_f1 st) c1 i1"
      and held2: "block_has (st_f2 st) c2 i2"
      and free1: "\<forall>b. block_has (st_f1 st) b i1 \<longrightarrow> block_match_of (st_f1 st) b = None"
      and free2: "\<forall>b. block_has (st_f2 st) b i2 \<longrightarrow> block_match_of (st_f2 st) b = None"
      and algo: "benum algo"
  shows "\<exists>nb1 nb2 st'.
           owning_block (st_f1 st) i1 = Inr nb1 \<and> block_has (st_f1 st) nb1 i1 \<and>
           owning_block (st_f2 st) i2 = Inr nb2 \<and> block_has (st_f2 st) nb2 i2 \<and>
           drain benum a1 a2 st bb_addr1 bb_addr2 algo ((i1, i2) # rest)
             = load_basic_block_info benum a1 a2 st nb1 nb2 algo ((i1, i2) # rest) \<and>
           load_basic_block_info benum a1 a2 st nb1 nb2 algo ((i1, i2) # rest)
             = drain benum a1 a2 st' nb1 nb2 algo rest \<and>
           block_match_of (st_f1 st') nb1 = Some (BRef a2 nb2) \<and>
           block_match_of (st_f2 st') nb2 = Some (BRef a1 nb1) \<and>
           block_algorithm_of (st_f1 st') nb1 = Some algo \<and>
           block_algorithm_of (st_f2 st') nb2 = Some algo \<and>
           inst_match_of (st_f1 st') nb1 i1 = Some (IRef a2 nb2 i2) \<and>
           inst_match_of (st_f2 st') nb2 i2 = Some (IRef a1 nb1 i1) \<and>
           st_single st' = st_single st \<and>
           st_out st' = st_out st"
proof -
  from owning_block_finds[OF wf1 held1] obtain nb1 where
    o1: "owning_block (st_f1 st) i1 = Inr nb1" and h1: "block_has (st_f1 st) nb1 i1" by blast
  from owning_block_finds[OF wf2 held2] obtain nb2 where
    o2: "owning_block (st_f2 st) i2 = Inr nb2" and h2: "block_has (st_f2 st) nb2 i2" by blast
  from h1 obtain x1 where
    x1: "map_of (f_blocks (st_f1 st)) nb1 = Some x1" "has_key (bb_insts x1) i1"
    by (auto simp: block_has_def split: option.splits)
  from h2 obtain x2 where
    x2: "map_of (f_blocks (st_f2 st)) nb2 = Some x2" "has_key (bb_insts x2) i2"
    by (auto simp: block_has_def split: option.splits)
  from free1 h1 x1 have f1: "bb_match x1 = None" by (auto simp: block_match_of_def)
  from free2 h2 x2 have f2: "bb_match x2 = None" by (auto simp: block_match_of_def)
  from cur1 miss1 obtain bb1 where
    b1: "map_of (f_blocks (st_f1 st)) bb_addr1 = Some bb1" "\<not> has_key (bb_insts bb1) i1"
    by (auto simp: has_key_def block_has_def split: option.splits)
  from cur2 miss2 obtain bb2 where
    b2: "map_of (f_blocks (st_f2 st)) bb_addr2 = Some bb2" "\<not> has_key (bb_insts bb2) i2"
    by (auto simp: has_key_def block_has_def split: option.splits)
  from recovery_restart[where benum = benum and algo = algo and ?a1.0 = a1 and ?a2.0 = a2
      and rest = rest, OF b1(1) b2(1) b1(2) b2(2) o1 o2 x1(1) x2(1) x1(2) x2(2) f1 f2 algo]
    o1 o2 h1 h2
  show ?thesis by blast
qed

text \<open>
  An instance, in the state \<open>ex_inner\<close>: blocks 10 and 20 are current and matched, and
  the pair is (22, 34). Neither 22 nor 34 is a block address, so the search goes
  through the blocks of each function and finds 22 in block 18 and 34 in block 30,
  both unmatched. The call ends with blocks 18 and 30 matched to each other,
  instructions 22 and 34 matched to each other, and nothing in \<^verbatim>\<open>single_match\<close>.
\<close>

theorem C2_recovery_witness:
  "well_formed (st_f1 ex_inner) \<and> well_formed (st_f2 ex_inner) \<and>
   \<not> block_has (st_f1 ex_inner) 10 22 \<and> \<not> block_has (st_f2 ex_inner) 20 34 \<and>
   \<not> has_key (f_blocks (st_f1 ex_inner)) 22 \<and> \<not> has_key (f_blocks (st_f2 ex_inner)) 34 \<and>
   block_has (st_f1 ex_inner) 18 22 \<and> block_has (st_f2 ex_inner) 30 34 \<and>
   owning_block (st_f1 ex_inner) 22 = Inr 18 \<and> owning_block (st_f2 ex_inner) 34 = Inr 30 \<and>
   block_match_of (st_f1 ex_inner) 18 = None \<and> block_match_of (st_f2 ex_inner) 30 = None \<and>
   ex_enum 1 \<and> st_single ex_inner = [] \<and>
   (\<exists>st'. drain ex_enum 100 200 ex_inner 10 20 1 [(22, 34)]
            = load_basic_block_info ex_enum 100 200 ex_inner 18 30 1 [(22, 34)] \<and>
          load_basic_block_info ex_enum 100 200 ex_inner 18 30 1 [(22, 34)]
            = drain ex_enum 100 200 st' 18 30 1 [] \<and>
          block_match_of (st_f1 st') 18 = Some (BRef 200 30) \<and>
          block_match_of (st_f2 st') 30 = Some (BRef 100 18) \<and>
          block_algorithm_of (st_f1 st') 18 = Some 1 \<and>
          block_algorithm_of (st_f2 st') 30 = Some 1 \<and>
          inst_match_of (st_f1 st') 18 22 = Some (IRef 200 30 34) \<and>
          inst_match_of (st_f2 st') 30 34 = Some (IRef 100 18 22) \<and>
          st_single st' = [] \<and> st_out st' = [])"
proof -
  have facts:
    "well_formed (st_f1 ex_inner) \<and> well_formed (st_f2 ex_inner) \<and>
     \<not> block_has (st_f1 ex_inner) 10 22 \<and> \<not> block_has (st_f2 ex_inner) 20 34 \<and>
     \<not> has_key (f_blocks (st_f1 ex_inner)) 22 \<and> \<not> has_key (f_blocks (st_f2 ex_inner)) 34 \<and>
     block_has (st_f1 ex_inner) 18 22 \<and> block_has (st_f2 ex_inner) 30 34 \<and>
     owning_block (st_f1 ex_inner) 22 = Inr 18 \<and> owning_block (st_f2 ex_inner) 34 = Inr 30 \<and>
     block_match_of (st_f1 ex_inner) 18 = None \<and> block_match_of (st_f2 ex_inner) 30 = None \<and>
     ex_enum 1 \<and> st_single ex_inner = [] \<and> st_out ex_inner = [] \<and>
     has_key (f_blocks (st_f1 ex_inner)) 10 \<and> has_key (f_blocks (st_f2 ex_inner)) 20"
    by (simp add: ex_inner_def well_formed_def example_defs loader_defs reading_defs)
  have free:
    "\<forall>b. block_has (st_f1 ex_inner) b 22 \<longrightarrow> block_match_of (st_f1 ex_inner) b = None"
    "\<forall>b. block_has (st_f2 ex_inner) b 34 \<longrightarrow> block_match_of (st_f2 ex_inner) b = None"
    by (simp_all add: ex_inner_def example_defs loader_defs reading_defs)
  from facts free
    C2_recovery_matches_new_block_pair[where st = ex_inner and ?bb_addr1.0 = 10 and ?i1.0 = 22
      and ?bb_addr2.0 = 20 and ?i2.0 = 34 and ?c1.0 = 18 and ?c2.0 = 30 and benum = ex_enum
      and algo = 1 and ?a1.0 = 100 and ?a2.0 = 200 and rest = "[]"]
  show ?thesis by (auto simp del: drain.simps load_basic_block_info.simps)
qed

subsection \<open>C3: reporting and overwriting a conflict\<close>

text \<open>
  When both blocks already have a match and they are not matched to each other, the
  head of the loop does what the claim says: it prints the conflict and overwrites
  both matches.
\<close>

lemma conflict_of_two_matched_blocks:
  assumes "map_of (f_blocks (st_f1 st)) bb_addr1 = Some bb1"
      and "map_of (f_blocks (st_f2 st)) bb_addr2 = Some bb2"
      and "bb_match bb1 = Some (BRef g1 m1)" and "bb_match bb2 = Some (BRef g2 m2)"
      and "BRef g1 m1 \<noteq> BRef a2 bb_addr2 \<or> BRef g2 m2 \<noteq> BRef a1 bb_addr1"
      and "benum algo"
  shows "resolve benum a1 a2 st bb_addr1 bb_addr2 algo =
           Inr (st\<lparr>st_f1 := set_block bb_addr1 (BRef a2 bb_addr2) algo (st_f1 st),
                   st_f2 := set_block bb_addr2 (BRef a1 bb_addr1) algo (st_f2 st),
                   st_out := st_out st @ [Conflict bb_addr1 m1 bb_addr2 m2]\<rparr>)"
  using assms by (auto simp: resolve_def conflict_report_def truthy_def)

text \<open>
  Claim C3: for every block pair being resolved where one of the two blocks already
  has a match and the two are not matched to each other, the conflict is reported,
  the match is overwritten (last write wins), processing continues and no exception
  escapes.

  The code breaks this when only one of the two blocks has a match. In \<open>ex_matched\<close>
  block 10 of the primary function is matched to block 20, and block 30 of the
  secondary function has no match. Resolving the pair (10, 30) enters the report,
  which formats \<^verbatim>\<open>bb2.match.addr\<close> with \<^verbatim>\<open>bb2.match\<close> being \<^verbatim>\<open>None\<close>: \<^verbatim>\<open>AttributeError\<close>,
  before any match is written. The state is the one the group (10, 20) leaves
  (\<open>ex_matched_reached\<close>), so two groups that share a block are enough.
\<close>

theorem C3_one_sided_conflict_raises:
  "block_match_of (st_f1 ex_matched) 10 = Some (BRef 200 20) \<and>
   block_match_of (st_f2 ex_matched) 30 = None \<and>
   resolve ex_enum 100 200 ex_matched 10 30 1 = Inl AttributeError \<and>
   load_basic_block_info ex_enum 100 200 ex_matched 10 30 1 [(14, 30)] = Inl AttributeError"
  by (simp add: example_defs loader_defs reading_defs)

subsection \<open>C4: an instruction address that is in no block\<close>

text \<open>
  When one address of the pair is in its current block and the other is nowhere in
  its function, the pair does go to \<^verbatim>\<open>single_match\<close> (the \<^verbatim>\<open>else\<close> branch of line 154).
\<close>

lemma one_address_present_goes_to_single_match:
  assumes "map_of (f_blocks (st_f1 st)) bb_addr1 = Some bb1"
      and "map_of (f_blocks (st_f2 st)) bb_addr2 = Some bb2"
      and "has_key (bb_insts bb1) i1 \<noteq> has_key (bb_insts bb2) i2"
  shows "drain benum a1 a2 st bb_addr1 bb_addr2 algo ((i1, i2) # rest) =
           load_basic_block_info benum a1 a2 (orphan st (i1, i2)) bb_addr1 bb_addr2 algo rest"
  using assms by auto

text \<open>
  Claim C4: during recovery after a failed instruction lookup, if an instruction
  address of the pair is found in no basic block of its function, the pair is
  appended to \<^verbatim>\<open>single_match\<close> and session construction does not fail.

  The code breaks this when neither address is in its current block: line 147 (or
  148) then indexes the empty list of owning blocks, and the \<^verbatim>\<open>IndexError\<close> is raised
  inside the handler of the \<^verbatim>\<open>KeyError\<close>, where nothing catches it. Below, address 19
  is in no block of function 100, and the group declares blocks 10 and 20 with the
  pair (19, 30).
\<close>

theorem C4_unknown_address_raises:
  "owning_block (fresh_func [(10, [10, 14]), (18, [18])]) 19 = Inl IndexError \<and>
   load_basic_block_info ex_enum 100 200 ex_st 10 20 1 [(19, 30)] = Inl IndexError \<and>
   init ex_strptime ex_enum ex_enum ex_primary ex_secondary
     (Some (''2020-01-02 03:04:05'', ''2020-01-02 03:04:05'', 19 / 20, 9 / 10))
     [(1, 100, 200, 19 / 20, 9 / 10, 1)]
     [(1, 1, 10, 20, 2, 19, 30)]
   = Inl IndexError"
  by (simp add: example_defs loader_defs constructor_defs)

subsection \<open>C5: a function record with an absent address\<close>

text \<open>
  Claim C5: for a function record whose first address is absent from the primary
  program or whose second address is absent from the secondary program, the failure
  is fatal for that function only: the other records are still processed and the
  session is still constructed.

  This fails on the code. Function 999 is not in the primary program: the store with
  the records (999, 200) and (110, 210) gives no session, although the second record
  alone loads.
\<close>

theorem C5_absent_function_counterexample:
  "init ex_strptime ex_enum ex_enum ex_primary ex_secondary
     (Some (''2020-01-02 03:04:05'', ''2020-01-02 03:04:05'', 19 / 20, 9 / 10))
     [(1, 999, 200, 19 / 20, 9 / 10, 1), (2, 110, 210, 1 / 2, 1 / 4, 3)]
     [(2, 2, 50, 60, 2, 50, 60)]
   = Inl KeyError \<and>
   \<not> isl (init ex_strptime ex_enum ex_enum ex_primary ex_secondary
     (Some (''2020-01-02 03:04:05'', ''2020-01-02 03:04:05'', 19 / 20, 9 / 10))
     [(2, 110, 210, 1 / 2, 1 / 4, 3)]
     [(2, 2, 50, 60, 2, 50, 60)])"
  by (simp add: example_defs loader_defs constructor_defs)

text \<open>
  Whatever the metadata and the other records are, a store with such a record gives
  no session: the constructor ends with an exception.
\<close>

lemma absent_function_no_session:
  assumes "add_rows (function_dict fun_rows) rows = Inr funs"
      and "d \<in> set (map snd funs)"
      and "\<not> has_key (p_funcs p1) (d_addr1 d) \<or> \<not> has_key (p_funcs p2) (d_addr2 d)"
  shows "\<exists>e. init strptime fenum benum p1 p2 meta fun_rows rows = Inl e"
proof (cases "load_metadata strptime
            \<lparr>primary = p1, secondary = p2, similarity = None, confidence = None,
             created = None, modified = None, single_match = [], printed = []\<rparr> meta")
  case (Inl e)
  then show ?thesis by (simp add: init_def)
next
  case (Inr s)
  then have "primary s = p1" "secondary s = p2"
    by (auto simp: load_metadata_def split: option.splits prod.splits)
  then have "\<not> has_key (p_funcs (primary (apply_metadata s))) (d_addr1 d) \<or>
             \<not> has_key (p_funcs (secondary (apply_metadata s))) (d_addr2 d)"
    using assms(3) by (simp add: apply_metadata_def)
  from load_all_absent[OF assms(2) this, of fenum benum] Inr assms(1)
  show ?thesis by (simp add: init_def)
qed

text \<open>
  Claim C5 as amended: a function record whose first address is absent from the
  primary program or whose second address is absent from the secondary program makes
  the lookup of line 106 or 107 raise \<^verbatim>\<open>KeyError\<close>, which nothing catches: once the
  metadata row and the records before it have loaded, the constructor fails with that
  \<^verbatim>\<open>KeyError\<close> and gives no session, and the records after it are not processed.

  \<open>s\<close> is the session after line 47, \<open>funs\<close> the dict built by lines 54 to 61, \<open>d\<close> the
  record with the absent address, \<open>pre\<close> the records before it in the order of the
  dict, which load, and \<open>post\<close> the records after it, which are arbitrary.
\<close>

theorem C5_absent_function_aborts_constructor:
  assumes meta: "load_metadata strptime
                   \<lparr>primary = p1, secondary = p2, similarity = None, confidence = None,
                    created = None, modified = None, single_match = [], printed = []\<rparr> meta
                 = Inr s"
      and rows: "add_rows (function_dict fun_rows) rows = Inr funs"
      and order: "map snd funs = pre @ d # post"
      and before: "load_all fenum benum (apply_metadata s) pre = Inr s1"
      and absent: "\<not> has_key (p_funcs p1) (d_addr1 d) \<or> \<not> has_key (p_funcs p2) (d_addr2 d)"
  shows "init strptime fenum benum p1 p2 meta fun_rows rows = Inl KeyError"
proof -
  from meta have "primary s = p1" "secondary s = p2"
    by (auto simp: load_metadata_def split: option.splits prod.splits)
  with absent have
    "\<not> has_key (p_funcs (primary (apply_metadata s))) (d_addr1 d) \<or>
     \<not> has_key (p_funcs (secondary (apply_metadata s))) (d_addr2 d)"
    by (simp add: apply_metadata_def)
  from load_all_first_absent[OF before this, of post] meta rows order
  show ?thesis by (simp add: init_def)
qed

text \<open>
  An instance with valid metadata: the store has the records (110, 210), (999, 200) and
  (100, 200) in this order. The metadata row loads, the record (110, 210) loads, the
  lookup of function 999 in the primary program raises, and the record (100, 200) is
  not processed.
\<close>

theorem C5_absent_function_witness:
  "\<not> isl (load_metadata ex_strptime ex_session
            (Some (''2020-01-02 03:04:05'', ''2020-01-02 03:04:05'', 19 / 20, 9 / 10))) \<and>
   add_rows (function_dict [(2, 110, 210, 1 / 2, 1 / 4, 3), (1, 999, 200, 19 / 20, 9 / 10, 1),
                            (3, 100, 200, 19 / 20, 9 / 10, 1)])
     [(2, 2, 50, 60, 2, 50, 60)]
     = Inr [(2, ex_record2), (1, ex_record1\<lparr>d_addr1 := 999, d_bbs := []\<rparr>),
            (3, ex_record1\<lparr>d_bbs := []\<rparr>)] \<and>
   \<not> isl (load_all ex_enum ex_enum
            (apply_metadata (projr (load_metadata ex_strptime ex_session
               (Some (''2020-01-02 03:04:05'', ''2020-01-02 03:04:05'', 19 / 20, 9 / 10)))))
            [ex_record2]) \<and>
   \<not> has_key (p_funcs ex_primary) 999 \<and>
   init ex_strptime ex_enum ex_enum ex_primary ex_secondary
     (Some (''2020-01-02 03:04:05'', ''2020-01-02 03:04:05'', 19 / 20, 9 / 10))
     [(2, 110, 210, 1 / 2, 1 / 4, 3), (1, 999, 200, 19 / 20, 9 / 10, 1),
      (3, 100, 200, 19 / 20, 9 / 10, 1)]
     [(2, 2, 50, 60, 2, 50, 60)]
   = Inl KeyError"
proof -
  let ?meta = "Some (''2020-01-02 03:04:05'', ''2020-01-02 03:04:05'', 19 / 20 :: rat, 9 / 10 :: rat)"
  let ?m = "load_metadata ex_strptime
              \<lparr>primary = ex_primary, secondary = ex_secondary, similarity = None,
               confidence = None, created = None, modified = None, single_match = [],
               printed = []\<rparr> ?meta"
  let ?l = "load_all ex_enum ex_enum (apply_metadata (projr ?m)) [ex_record2]"
  have m: "\<not> isl ?m"
    by (simp add: example_defs constructor_defs Let_def)
  then have meta: "?m = Inr (projr ?m)" by (cases ?m) simp_all
  have rows: "add_rows (function_dict [(2, 110, 210, 1 / 2, 1 / 4, 3), (1, 999, 200, 19 / 20, 9 / 10, 1),
                            (3, 100, 200, 19 / 20, 9 / 10, 1)])
     [(2, 2, 50, 60, 2, 50, 60)]
     = Inr [(2, ex_record2), (1, ex_record1\<lparr>d_addr1 := 999, d_bbs := []\<rparr>),
            (3, ex_record1\<lparr>d_bbs := []\<rparr>)]"
    by (simp add: example_defs constructor_defs has_key_def)
  have l: "\<not> isl ?l"
    by (simp add: example_defs loader_defs constructor_defs Let_def)
  then have before: "?l = Inr (projr ?l)" by (cases ?l) simp_all
  have absent: "\<not> has_key (p_funcs ex_primary) 999"
    by (simp add: example_defs has_key_def)
  have order: "map snd [(2 :: int, ex_record2), (1, ex_record1\<lparr>d_addr1 := 999, d_bbs := []\<rparr>),
            (3, ex_record1\<lparr>d_bbs := []\<rparr>)]
     = [ex_record2] @ ex_record1\<lparr>d_addr1 := 999, d_bbs := []\<rparr> # [ex_record1\<lparr>d_bbs := []\<rparr>]"
    by simp
  have "init ex_strptime ex_enum ex_enum ex_primary ex_secondary ?meta
     [(2, 110, 210, 1 / 2, 1 / 4, 3), (1, 999, 200, 19 / 20, 9 / 10, 1),
      (3, 100, 200, 19 / 20, 9 / 10, 1)]
     [(2, 2, 50, 60, 2, 50, 60)] = Inl KeyError"
    by (rule C5_absent_function_aborts_constructor[where s = "projr ?m" and ?s1.0 = "projr ?l"
          and fenum = ex_enum and benum = ex_enum, OF meta rows order before])
       (simp add: absent)
  with m rows l absent show ?thesis unfolding ex_session_def by blast
qed

subsection \<open>C6: matched function pairs\<close>

text \<open>
  Claim C6: after the propagation of a store without conflicts, for every matched
  function pair \<open>(f1, f2)\<close>, \<open>f1.match\<close> is \<open>f2\<close> and \<open>f2.match\<close> is \<open>f1\<close>, and both carry
  the similarity, the confidence and the decoded algorithm of the function record.

  The propagation is \<open>load_all\<close> on the function records, and it has completed with
  the session \<open>s'\<close>. No function conflict means that no address occurs in two records
  on the same side. Block conflicts play no part: they touch no function-level
  attribute.
\<close>

theorem C6_matched_functions_symmetric:
  assumes "load_all fenum benum s ds = Inr s'"
      and "distinct (map d_addr1 ds)"
      and "distinct (map d_addr2 ds)"
      and "d \<in> set ds"
  shows "\<exists>f1 f2.
           map_of (p_funcs (primary s')) (d_addr1 d) = Some f1 \<and>
           map_of (p_funcs (secondary s')) (d_addr2 d) = Some f2 \<and>
           f_match f1 = Some (d_addr2 d) \<and> f_match f2 = Some (d_addr1 d) \<and>
           f_similarity f1 = Some (d_similarity d) \<and> f_similarity f2 = Some (d_similarity d) \<and>
           f_confidence f1 = Some (d_confidence d) \<and> f_confidence f2 = Some (d_confidence d) \<and>
           f_algorithm f1 = Some (d_algo d) \<and> f_algorithm f2 = Some (d_algo d)"
  using load_all_annotated[OF assms]
  by (auto simp: annotated_def split: option.splits)

theorem C6_matched_functions_witness:
  "\<not> isl (load_all ex_enum ex_enum ex_session [ex_record1, ex_record2]) \<and>
   distinct (map d_addr1 [ex_record1, ex_record2]) \<and>
   distinct (map d_addr2 [ex_record1, ex_record2]) \<and>
   (\<exists>f1 f2.
      map_of (p_funcs (primary (projr (load_all ex_enum ex_enum ex_session [ex_record1, ex_record2]))))
        100 = Some f1 \<and>
      map_of (p_funcs (secondary (projr (load_all ex_enum ex_enum ex_session [ex_record1, ex_record2]))))
        200 = Some f2 \<and>
      f_match f1 = Some 200 \<and> f_match f2 = Some 100 \<and>
      f_similarity f1 = Some (19 / 20) \<and> f_similarity f2 = Some (19 / 20) \<and>
      f_confidence f1 = Some (9 / 10) \<and> f_confidence f2 = Some (9 / 10) \<and>
      f_algorithm f1 = Some 1 \<and> f_algorithm f2 = Some 1)"
proof -
  have run: "\<not> isl (load_all ex_enum ex_enum ex_session [ex_record1, ex_record2])"
    by (simp add: example_defs loader_defs constructor_defs)
  then have ok: "load_all ex_enum ex_enum ex_session [ex_record1, ex_record2]
      = Inr (projr (load_all ex_enum ex_enum ex_session [ex_record1, ex_record2]))"
    by (cases "load_all ex_enum ex_enum ex_session [ex_record1, ex_record2]") simp_all
  have d: "distinct (map d_addr1 [ex_record1, ex_record2])"
    "distinct (map d_addr2 [ex_record1, ex_record2])"
    by (simp_all add: example_defs)
  from C6_matched_functions_symmetric[OF ok d, of ex_record1]
  have "\<exists>f1 f2.
      map_of (p_funcs (primary (projr (load_all ex_enum ex_enum ex_session [ex_record1, ex_record2]))))
        100 = Some f1 \<and>
      map_of (p_funcs (secondary (projr (load_all ex_enum ex_enum ex_session [ex_record1, ex_record2]))))
        200 = Some f2 \<and>
      f_match f1 = Some 200 \<and> f_match f2 = Some 100 \<and>
      f_similarity f1 = Some (19 / 20) \<and> f_similarity f2 = Some (19 / 20) \<and>
      f_confidence f1 = Some (9 / 10) \<and> f_confidence f2 = Some (9 / 10) \<and>
      f_algorithm f1 = Some 1 \<and> f_algorithm f2 = Some 1"
    by (simp add: ex_record1_def)
  with run d show ?thesis by blast
qed

subsection \<open>C7: session-wide similarity and confidence\<close>

text \<open>
  Claim C7: after loading metadata, the session-wide similarity and confidence are
  rounded to exactly 3 decimal places, lie in [0, 1], and are applied to both program
  objects as session-wide default attributes.

  The code rounds and applies, but it checks no range: a store whose metadata row
  holds similarity 2 and confidence 3/2 gives a session with exactly these values.
\<close>

theorem C7_metadata_range_counterexample:
  "\<not> isl (init ex_strptime ex_enum ex_enum ex_primary ex_secondary
            (Some (''2020-01-02 03:04:05'', ''2020-01-02 03:04:05'', 2, 3 / 2)) [] []) \<and>
   similarity (projr (init ex_strptime ex_enum ex_enum ex_primary ex_secondary
            (Some (''2020-01-02 03:04:05'', ''2020-01-02 03:04:05'', 2, 3 / 2)) [] [])) = Some 2 \<and>
   confidence (projr (init ex_strptime ex_enum ex_enum ex_primary ex_secondary
            (Some (''2020-01-02 03:04:05'', ''2020-01-02 03:04:05'', 2, 3 / 2)) [] [])) = Some (3 / 2) \<and>
   \<not> (2 :: rat) \<le> 1 \<and> \<not> (3 / 2 :: rat) \<le> 1"
  by (simp add: example_defs constructor_defs)

text \<open>
  Claim C7 as amended: after the constructor has run, the session-wide similarity and
  confidence are the stored values rounded to 3 decimal places (a multiple of 1/1000
  at most 1/2000 away from the stored value), both program objects carry the same
  two values, and they lie in [0, 1] whenever the stored values do.
\<close>

theorem C7_metadata_rounded_and_applied:
  assumes "init strptime fenum benum p1 p2 (Some (c, m, sim, conf)) fun_rows rows = Inr s'"
  shows "similarity s' = Some (format3 sim) \<and> confidence s' = Some (format3 conf) \<and>
         p_similarity (primary s') = Some (format3 sim) \<and>
         p_similarity (secondary s') = Some (format3 sim) \<and>
         p_confidence (primary s') = Some (format3 conf) \<and>
         p_confidence (secondary s') = Some (format3 conf) \<and>
         format3 sim = of_int (round_half_even (sim * 1000)) / 1000 \<and>
         format3 conf = of_int (round_half_even (conf * 1000)) / 1000 \<and>
         \<bar>format3 sim - sim\<bar> \<le> 1 / 2000 \<and> \<bar>format3 conf - conf\<bar> \<le> 1 / 2000 \<and>
         (0 \<le> sim \<and> sim \<le> 1 \<longrightarrow> 0 \<le> format3 sim \<and> format3 sim \<le> 1) \<and>
         (0 \<le> conf \<and> conf \<le> 1 \<longrightarrow> 0 \<le> format3 conf \<and> format3 conf \<le> 1)"
proof -
  from assms have "\<exists>s (funs :: (int \<times> f_data) list). load_metadata strptime
            \<lparr>primary = p1, secondary = p2, similarity = None, confidence = None,
             created = None, modified = None, single_match = [], printed = []\<rparr>
            (Some (c, m, sim, conf)) = Inr s \<and>
          load_all fenum benum (apply_metadata s) (map snd funs) = Inr s'"
    by (auto simp: init_def split: sum.splits)
  then obtain s and funs :: "(int \<times> f_data) list" where
    meta: "load_metadata strptime
            \<lparr>primary = p1, secondary = p2, similarity = None, confidence = None,
             created = None, modified = None, single_match = [], printed = []\<rparr>
            (Some (c, m, sim, conf)) = Inr s" and
    run: "load_all fenum benum (apply_metadata s) (map snd funs) = Inr s'"
    by blast
  from meta have "similarity s = Some (format3 sim)" "confidence s = Some (format3 conf)"
    by (auto simp: load_metadata_def split: option.splits)
  then have "similarity (apply_metadata s) = Some (format3 sim)"
    "confidence (apply_metadata s) = Some (format3 conf)"
    "p_similarity (primary (apply_metadata s)) = Some (format3 sim)"
    "p_similarity (secondary (apply_metadata s)) = Some (format3 sim)"
    "p_confidence (primary (apply_metadata s)) = Some (format3 conf)"
    "p_confidence (secondary (apply_metadata s)) = Some (format3 conf)"
    by (simp_all add: apply_metadata_def)
  with load_all_session_fields[OF run] have
    "similarity s' = Some (format3 sim) \<and> confidence s' = Some (format3 conf) \<and>
     p_similarity (primary s') = Some (format3 sim) \<and>
     p_similarity (secondary s') = Some (format3 sim) \<and>
     p_confidence (primary s') = Some (format3 conf) \<and>
     p_confidence (secondary s') = Some (format3 conf)" by simp
  then show ?thesis
    using format3_close[of sim] format3_close[of conf] format3_unit[of sim] format3_unit[of conf]
    by (simp add: format3_decimal[symmetric])
qed

text \<open>An instance: similarity 0.6789 becomes 0.679, confidence 1/16 becomes 0.062.\<close>

theorem C7_metadata_witness:
  "\<not> isl (init ex_strptime ex_enum ex_enum ex_primary ex_secondary
            (Some (''2020-01-02 03:04:05'', ''2020-01-02 03:04:05'', 6789 / 10000, 1 / 16))
            [(1, 100, 200, 19 / 20, 9 / 10, 1)] [(1, 1, 10, 20, 2, 10, 20)]) \<and>
   similarity (projr (init ex_strptime ex_enum ex_enum ex_primary ex_secondary
            (Some (''2020-01-02 03:04:05'', ''2020-01-02 03:04:05'', 6789 / 10000, 1 / 16))
            [(1, 100, 200, 19 / 20, 9 / 10, 1)] [(1, 1, 10, 20, 2, 10, 20)])) = Some (679 / 1000) \<and>
   p_similarity (primary (projr (init ex_strptime ex_enum ex_enum ex_primary ex_secondary
            (Some (''2020-01-02 03:04:05'', ''2020-01-02 03:04:05'', 6789 / 10000, 1 / 16))
            [(1, 100, 200, 19 / 20, 9 / 10, 1)] [(1, 1, 10, 20, 2, 10, 20)]))) = Some (679 / 1000) \<and>
   p_confidence (secondary (projr (init ex_strptime ex_enum ex_enum ex_primary ex_secondary
            (Some (''2020-01-02 03:04:05'', ''2020-01-02 03:04:05'', 6789 / 10000, 1 / 16))
            [(1, 100, 200, 19 / 20, 9 / 10, 1)] [(1, 1, 10, 20, 2, 10, 20)]))) = Some (62 / 1000)"
proof -
  let ?r = "init ex_strptime ex_enum ex_enum ex_primary ex_secondary
            (Some (''2020-01-02 03:04:05'', ''2020-01-02 03:04:05'', 6789 / 10000, 1 / 16))
            [(1, 100, 200, 19 / 20, 9 / 10, 1)] [(1, 1, 10, 20, 2, 10, 20)]"
  have run: "\<not> isl ?r"
    by (simp add: example_defs loader_defs constructor_defs)
  then have ok: "?r = Inr (projr ?r)" by (cases ?r) simp_all
  have fl: "\<lfloor>6789 / 10 :: rat\<rfloor> = 678" "\<lfloor>125 / 2 :: rat\<rfloor> = 62"
    by (rule floor_unique; simp)+
  have v: "format3 (6789 / 10000) = 679 / 1000" "format3 (1 / 16) = 62 / 1000"
    by (simp_all add: format3_def round_half_even_def Let_def fl)
  from C7_metadata_rounded_and_applied[OF ok] run show ?thesis by (simp add: v)
qed

subsection \<open>C8: the temporary directory\<close>

text \<open>
  Claim C8: the temporary directory created for the differ's output is removed on
  every exit path of the diffing step, also when the differ exits non-zero and when
  no output artifact is found.

  The code removes the directory only at the end of the successful path (line 204).
  The \<^verbatim>\<open>return retcode\<close> of line 186 and the \<^verbatim>\<open>return -2\<close> of line 203 leave before it:
  with exit code 1, and with exit code 0 and an empty directory, the directory is
  still there when the call returns.
\<close>

theorem C8_tmp_dir_left_behind:
  "start_diffing 1 [] ''a.BinExport'' ''b.BinExport''
     = (1, \<lparr>fs_tmp_dir = Some [], fs_out_diff = None, fs_log = [DifferError 1]\<rparr>) \<and>
   start_diffing 0 [] ''a.BinExport'' ''b.BinExport''
     = (- 2, \<lparr>fs_tmp_dir = Some [], fs_out_diff = None, fs_log = [NotFound]\<rparr>)"
  by (simp add: start_diffing_def stem_of_def suffix_of_def rfind_def)

subsection \<open>C9: finding the differ's output\<close>

text \<open>
  Where the expected name exists, it is the file moved, and the directory is removed.
\<close>

lemma expected_artifact_is_moved:
  "start_diffing 0 [''a_vs_b.BinDiff''] ''a.BinExport'' ''b.BinExport''
     = (0, \<lparr>fs_tmp_dir = None, fs_out_diff = Some ''a_vs_b.BinDiff'', fs_log = []\<rparr>)"
  by (simp add: start_diffing_def stem_of_def suffix_of_def rfind_def)

text \<open>
  Claim C9: when the differ's output under the expected name, made of the two stems
  and the diff-store extension, does not exist, the directory is scanned and the
  first file with the diff-store extension is moved to the output path, with a
  warning if there are several candidates and a failure if there is none.

  The expected name ends in \<^verbatim>\<open>.BinDiff\<close> (line 188), but the scan of line 197 compares
  the suffix with \<^verbatim>\<open>.BinExport\<close>, the extension of the differ's input. A directory whose
  only file is a diff store under another name is answered with -2 and nothing is
  moved.
\<close>

theorem C9_diff_store_file_not_found:
  "suffix_of ''c_vs_d.BinDiff'' = ''.BinDiff'' \<and>
   start_diffing 0 [''c_vs_d.BinDiff''] ''a.BinExport'' ''b.BinExport''
     = (- 2, \<lparr>fs_tmp_dir = Some [''c_vs_d.BinDiff''], fs_out_diff = None, fs_log = [NotFound]\<rparr>)"
  by (simp add: start_diffing_def stem_of_def suffix_of_def rfind_def)

subsection \<open>C10: the displaced counterpart of an overwritten match\<close>

text \<open>
  Claim C10: when a block conflict is overwritten, \<open>bb1\<close> having been matched to a block
  \<open>bbX\<close> other than \<open>bb2\<close>, only the matches of \<open>bb1\<close> and \<open>bb2\<close> are reassigned: \<open>bbX\<close> keeps
  its old match to \<open>bb1\<close>, an asymmetric stale cross-reference that no operation ever
  clears.

  The overwrite is a run of lines 134 to 139 that returns (\<open>resolve\<close> gives \<open>Inr\<close>).
  \<open>bx\<close> is the address of \<open>bbX\<close>, a block of the secondary function of the pair being
  processed. The first three conjuncts are the two new matches and the stale one;
  the next two say that no block but the two resolved ones is touched. The last two
  say that the match of \<open>bbX\<close> is never cleared: whatever the rest of the group and the
  later groups of the function pair do, \<open>bbX\<close> still has a match, and no propagation
  over any function records turns a match that is set into one that is not.
\<close>

theorem C10_displaced_block_keeps_stale_match:
  assumes res: "resolve benum a1 a2 st bb_addr1 bb_addr2 algo = Inr st'"
      and old1: "block_match_of (st_f1 st) bb_addr1 = Some (BRef a2 bx)"
      and other: "bx \<noteq> bb_addr2"
      and oldx: "block_match_of (st_f2 st) bx = Some (BRef a1 bb_addr1)"
  shows "block_match_of (st_f1 st') bb_addr1 = Some (BRef a2 bb_addr2) \<and>
         block_match_of (st_f2 st') bb_addr2 = Some (BRef a1 bb_addr1) \<and>
         block_match_of (st_f2 st') bx = Some (BRef a1 bb_addr1) \<and>
         (\<forall>b. b \<noteq> bb_addr1 \<longrightarrow> map_of (f_blocks (st_f1 st')) b = map_of (f_blocks (st_f1 st)) b) \<and>
         (\<forall>b. b \<noteq> bb_addr2 \<longrightarrow> map_of (f_blocks (st_f2 st')) b = map_of (f_blocks (st_f2 st)) b) \<and>
         (\<forall>q gs st2 st3.
            drain benum a1 a2 st' bb_addr1 bb_addr2 algo q = Inr st2 \<and>
            load_groups benum a1 a2 st2 gs = Inr st3 \<longrightarrow>
            block_match_of (st_f2 st3) bx \<noteq> None) \<and>
         (\<forall>fenum s ds s' g b.
            load_all fenum benum s ds = Inr s' \<and> program_block_match (secondary s) g b \<noteq> None \<longrightarrow>
            program_block_match (secondary s') g b \<noteq> None)"
proof -
  note f = resolve_fields[OF res]
  have m1: "block_match_of (st_f1 st') bb_addr1 = Some (BRef a2 bb_addr2)"
    using f(4) by (simp add: f(1) block_match_of_set_block)
  have m2: "block_match_of (st_f2 st') bb_addr2 = Some (BRef a1 bb_addr1)"
    using f(5) by (simp add: f(2) block_match_of_set_block)
  have mx: "block_match_of (st_f2 st') bx = Some (BRef a1 bb_addr1)"
    using other oldx by (simp add: f(2) block_match_of_set_block)
  have later: "block_match_of (st_f2 st3) bx \<noteq> None"
    if "drain benum a1 a2 st' bb_addr1 bb_addr2 algo q = Inr st2"
      and "load_groups benum a1 a2 st2 gs = Inr st3" for q gs st2 st3
  proof -
    from drain_matches_kept[OF that(1)] mx have "block_match_of (st_f2 st2) bx \<noteq> None"
      by (simp add: matches_kept_def)
    with load_groups_matches_kept[OF that(2)] show ?thesis by (simp add: matches_kept_def)
  qed
  from m1 m2 mx resolve_frame[OF res] later load_all_keeps_matches show ?thesis by blast
qed

text \<open>
  An instance: in \<open>ex_conflict\<close> block 10 is matched to block 20 and block 18 to block
  30. A group that declares blocks 10 and 30 overwrites both matches; block 20 still
  points to block 10, which now points to block 30.
\<close>

theorem C10_stale_match_witness:
  "\<not> isl (resolve ex_enum 100 200 ex_conflict 10 30 1) \<and>
   block_match_of (st_f1 ex_conflict) 10 = Some (BRef 200 20) \<and>
   block_match_of (st_f2 ex_conflict) 20 = Some (BRef 100 10) \<and>
   block_match_of (st_f1 (projr (resolve ex_enum 100 200 ex_conflict 10 30 1))) 10
     = Some (BRef 200 30) \<and>
   block_match_of (st_f2 (projr (resolve ex_enum 100 200 ex_conflict 10 30 1))) 30
     = Some (BRef 100 10) \<and>
   block_match_of (st_f2 (projr (resolve ex_enum 100 200 ex_conflict 10 30 1))) 20
     = Some (BRef 100 10) \<and>
   st_out (projr (resolve ex_enum 100 200 ex_conflict 10 30 1)) = [Conflict 10 20 30 18]"
proof -
  let ?r = "resolve ex_enum 100 200 ex_conflict 10 30 1"
  have run: "\<not> isl ?r" and out: "st_out (projr ?r) = [Conflict 10 20 30 18]"
    by (simp_all add: example_defs loader_defs)
  then have ok: "?r = Inr (projr ?r)" by (cases ?r) simp_all
  have h: "block_match_of (st_f1 ex_conflict) 10 = Some (BRef 200 20)"
    "(20 :: int) \<noteq> 30"
    "block_match_of (st_f2 ex_conflict) 20 = Some (BRef 100 10)"
    by (simp_all add: example_defs reading_defs)
  from C10_displaced_block_keeps_stale_match[OF ok h] run out h show ?thesis by blast
qed

end
